theory Spec2Isabelle
  imports Complex_Main "HOL-Library.Signed_Division" "HOL-Library.Monad_Syntax"
begin

section \<open>Conventions of the embedding\<close>

text \<open>
  The development embeds \<^verbatim>\<open>fitness.cu\<close> of the NEP trainer (constructor, \<^verbatim>\<open>compute\<close>,
  \<^verbatim>\<open>predict_energy_or_stress\<close>, \<^verbatim>\<open>report_error\<close>, \<^verbatim>\<open>update_energy_force_virial\<close>).

  \<^item> A C++ \<^verbatim>\<open>int\<close> is a HOL \<open>int\<close>; \<^verbatim>\<open>/\<close> and \<^verbatim>\<open>%\<close> on it are the truncating
    \<open>sdiv\<close> and \<open>smod\<close>. Signed overflow is undefined behaviour and is not given a value:
    the model computes with unbounded integers, and a theorem assumes of the \<^verbatim>\<open>int\<close>
    expressions it depends on that they stay below \<open>2^31\<close>.
  \<^item> \<^verbatim>\<open>size_t\<close> arithmetic and the conversions between \<^verbatim>\<open>size_t\<close> and \<^verbatim>\<open>int\<close> are written
    out with \<open>u64\<close> and \<open>i32\<close>.
  \<^item> A \<^verbatim>\<open>float\<close> is a HOL \<open>real\<close>: rounding, NaN and infinities are outside the model.
  \<^item> Undefined behaviour that the code can reach (an index outside a vector, an integer
    division by zero) is the result \<open>None\<close>.
  \<^item> A \<^verbatim>\<open>FILE*\<close> is the list of the lines written to it, each line the tuple of the
    numbers printed; the \<^verbatim>\<open>printf\<close> formats are not modelled.
\<close>

definition u64 :: "int \<Rightarrow> int" where
  "u64 x = x mod 2 ^ 64"

definition i32 :: "int \<Rightarrow> int" where
  "i32 x = (x + 2 ^ 31) mod 2 ^ 32 - 2 ^ 31"

definition rd :: "'a list \<Rightarrow> int \<Rightarrow> 'a option" where
  "rd xs i = (if 0 \<le> i \<and> i < int (length xs) then Some (xs ! nat i) else None)"

definition wr :: "'a list \<Rightarrow> int \<Rightarrow> 'a \<Rightarrow> 'a list option" where
  "wr xs i v = (if 0 \<le> i \<and> i < int (length xs) then Some (xs[nat i := v]) else None)"

text \<open>\<^verbatim>\<open>for (int i = lo; i < hi; ++i) body\<close>, the body failing or returning the new state.\<close>

function for_loop :: "int \<Rightarrow> int \<Rightarrow> (int \<Rightarrow> 's \<Rightarrow> 's option) \<Rightarrow> 's \<Rightarrow> 's option" where
  "for_loop i hi body s =
     (if i < hi
      then (case body i s of None \<Rightarrow> None | Some s' \<Rightarrow> for_loop (i + 1) hi body s')
      else Some s)"
  by pat_completeness auto
termination
  by (relation "measure (\<lambda>(i, hi, body, s). nat (hi - i))") auto

declare for_loop.simps [simp del]

section \<open>Parameters and the batch partition of the constructor\<close>

text \<open>
  The fields of \<^verbatim>\<open>Parameters\<close> (declared in \<^verbatim>\<open>parameters.cuh\<close>) that the embedded
  functions read or write.
\<close>

record Parameters =
  batch_size :: int
  population_size :: int
  number_of_variables :: int
  number_of_variables_ann :: int
  lambda_e :: real
  lambda_f :: real
  lambda_v :: real

text \<open>
  \<^verbatim>\<open>Fitness::Fitness\<close>, lines 42 to 67: \<open>sz\<close> is \<^verbatim>\<open>structures_train.size()\<close>. The result
  is \<^verbatim>\<open>num_batches\<close>, the parameters with the recomputed \<^verbatim>\<open>batch_size\<close>, and for each
  \<^verbatim>\<open>batch_id\<close> in turn the range \<open>(n1, n2)\<close> handed to \<^verbatim>\<open>Dataset::construct\<close>.
\<close>

definition Fitness_batches ::
  "nat \<Rightarrow> Parameters \<Rightarrow> (int \<times> Parameters \<times> (int \<times> int) list) option" where
  "Fitness_batches sz para =
     (if u64 (batch_size para) = 0 then None
      else
        let num_batches = i32 (u64 (u64 (int sz - 1) div u64 (batch_size para) + 1)) in
        if u64 num_batches = 0 then None
        else
          let para' = para\<lparr>batch_size := i32 (u64 (u64 (int sz - 1) div u64 num_batches + 1))\<rparr> in
          map_option (\<lambda>ranges. (num_batches, para', ranges))
            (for_loop 0 num_batches
               (\<lambda>batch_id ranges.
                  let n1 = batch_id * batch_size para';
                      n2 = min (i32 (int sz)) (n1 + batch_size para')
                  in Some (ranges @ [(n1, n2)]))
               []))"

section \<open>Datasets, the potential and the fitness object\<close>

text \<open>
  The members of \<^verbatim>\<open>Dataset\<close> (declared in \<^verbatim>\<open>dataset.cuh\<close>) that \<^verbatim>\<open>fitness.cu\<close> reads or
  writes. \<open>energy\<close>, \<open>virial\<close> and \<open>force\<close> are the device buffers, the \<open>_cpu\<close> fields the
  host vectors; \<open>num_atom\<close> holds \<^verbatim>\<open>structures[nc].num_atom\<close>.
\<close>

record Dataset =
  Nc :: int
  N :: int
  Na_cpu :: "int list"
  Na_sum_cpu :: "int list"
  num_atom :: "int list"
  energy :: "real list"
  virial :: "real list"
  force :: "real list"
  energy_cpu :: "real list"
  virial_cpu :: "real list"
  force_cpu :: "real list"
  energy_ref_cpu :: "real list"
  virial_ref_cpu :: "real list"
  force_ref_cpu :: "real list"

text \<open>
  The routines \<^verbatim>\<open>fitness.cu\<close> calls and does not define are parameters of the model:
  \<^verbatim>\<open>NEP3::find_force\<close> by its effect on the vector of per-device Datasets it is given
  (arguments: parameters, pointer to the first individual as the list from there on,
  the Datasets, \<^verbatim>\<open>calculate_q_scaler\<close>, \<^verbatim>\<open>device_in_this_iter\<close>), and the three
  \<^verbatim>\<open>Dataset::get_rmse_*\<close> by the value returned (arguments as in the calls;
  \<open>get_rmse_energy\<close> returns the RMSE and the value left in its reference argument
  \<^verbatim>\<open>energy_shift_per_structure\<close>).
\<close>

record Kernels =
  find_force :: "Parameters \<Rightarrow> real list \<Rightarrow> Dataset list \<Rightarrow> bool \<Rightarrow> int \<Rightarrow> Dataset list"
  get_rmse_energy :: "Dataset \<Rightarrow> bool \<Rightarrow> bool \<Rightarrow> int \<Rightarrow> real \<times> real"
  get_rmse_force :: "Parameters \<Rightarrow> Dataset \<Rightarrow> bool \<Rightarrow> int \<Rightarrow> real"
  get_rmse_virial :: "Dataset \<Rightarrow> bool \<Rightarrow> int \<Rightarrow> real"

text \<open>
  What the run does to its surroundings, in order: each call of \<^verbatim>\<open>find_force\<close> (on a
  training batch or on the test set, with the parameter list, the flag and the number
  of devices), each individual scored (chunk, device, index of its energy entry in the
  fitness array), each Dataset dumped (first and second index into \<^verbatim>\<open>train_set\<close>, or the
  test set).
\<close>

datatype target = Train int | Test

datatype event =
    Find_force target "real list" bool int
  | Score int int int
  | Dump_train int int
  | Dump_test

text \<open>
  The members of \<^verbatim>\<open>Fitness\<close>: \<open>train_set\<close> is indexed by batch, then by device; \<open>test_set\<close>
  by device; \<open>fid_loss_out\<close> is \<^verbatim>\<open>loss.out\<close>, opened for appending by the constructor.
  \<open>trace\<close> is not a member: it records the events above.
\<close>

type_synonym loss_line = "int \<times> real list"

record Fitness =
  num_batches :: int
  train_set :: "Dataset list list"
  test_set :: "Dataset list"
  fid_loss_out :: "loss_line list"
  trace :: "event list"

text \<open>The files \<^verbatim>\<open>report_error\<close> opens with mode \<^verbatim>\<open>"w"\<close> in \<^verbatim>\<open>input_dir\<close>.\<close>

type_synonym pair_line = "real \<times> real"
type_synonym force_line = "real \<times> real \<times> real \<times> real \<times> real \<times> real"

record Files =
  nep_txt :: "real list"
  energy_test_out :: "pair_line list"
  force_test_out :: "force_line list"
  virial_test_out :: "pair_line list"
  energy_train_out :: "pair_line list"
  force_train_out :: "force_line list"
  virial_train_out :: "pair_line list"

section \<open>\<^verbatim>\<open>Fitness::compute\<close>\<close>

text \<open>The three assignments of lines 139 to 145, for the Dataset \<open>ds\<close> of device \<open>m\<close>.\<close>

definition fitness_components :: "Kernels \<Rightarrow> Parameters \<Rightarrow> Dataset \<Rightarrow> int \<Rightarrow> real \<times> real \<times> real" where
  "fitness_components K para ds m =
     (lambda_e para * fst (get_rmse_energy K ds True True m),
      lambda_f para * get_rmse_force K para ds True m,
      lambda_v para * get_rmse_virial K ds True m)"

text \<open>The loop over \<open>m\<close> of lines 137 to 147, for chunk \<open>n\<close>.\<close>

definition score_chunk ::
  "Kernels \<Rightarrow> int \<Rightarrow> Parameters \<Rightarrow> int \<Rightarrow> int \<Rightarrow> int \<Rightarrow> Fitness \<times> real list \<Rightarrow> (Fitness \<times> real list) option" where
  "score_chunk K deviceCount para batch_id n device_in_this_iter =
     for_loop 0 device_in_this_iter
       (\<lambda>m (fit, fitness). do {
          row \<leftarrow> rd (train_set fit) batch_id;
          ds \<leftarrow> rd row m;
          let (fe, ff, fv) = fitness_components K para ds m;
          fitness \<leftarrow> wr fitness (deviceCount * n + m + 0 * population_size para) fe;
          fitness \<leftarrow> wr fitness (deviceCount * n + m + 1 * population_size para) ff;
          fitness \<leftarrow> wr fitness (deviceCount * n + m + 2 * population_size para) fv;
          Some (fit\<lparr>trace := trace fit @ [Score n m (deviceCount * n + m)]\<rparr>, fitness)
        })"

text \<open>
  Pointer arithmetic \<^verbatim>\<open>population + k\<close>: the list from element \<open>k\<close> on; a pointer outside
  the array is undefined behaviour.
\<close>

definition ptr_add :: "'a list \<Rightarrow> int \<Rightarrow> 'a list option" where
  "ptr_add xs k = (if 0 \<le> k \<and> k \<le> int (length xs) then Some (drop (nat k) xs) else None)"

text \<open>The branch \<^verbatim>\<open>generation == 0\<close>, lines 125 to 129.\<close>

definition compute_warmup :: "Kernels \<Rightarrow> int \<Rightarrow> Parameters \<Rightarrow> Fitness \<Rightarrow> Fitness option" where
  "compute_warmup K deviceCount para fit0 =
     (if number_of_variables para < 0 then None
      else
        let dummy_solution = replicate (nat (number_of_variables para)) (1::real) in
        for_loop 0 (num_batches fit0)
          (\<lambda>n fit. do {
             row \<leftarrow> rd (train_set fit) n;
             let fit = fit\<lparr>train_set := (train_set fit)[nat n := find_force K para dummy_solution row True deviceCount],
                          trace := trace fit @ [Find_force (Train n) dummy_solution True deviceCount]\<rparr>;
             Some (fit\<lparr>test_set := find_force K para dummy_solution (test_set fit) True 1,
                       trace := trace fit @ [Find_force Test dummy_solution True 1]\<rparr>)
           })
          fit0)"

text \<open>The branch \<^verbatim>\<open>generation != 0\<close>, lines 132 to 148, from the batch chosen.\<close>

definition compute_scoring ::
  "Kernels \<Rightarrow> int \<Rightarrow> Parameters \<Rightarrow> real list \<Rightarrow> int \<Rightarrow> int \<Rightarrow> Fitness \<times> real list \<Rightarrow> (Fitness \<times> real list) option" where
  "compute_scoring K deviceCount para population min_population_iter batch_id =
     for_loop 0 min_population_iter
       (\<lambda>n (fit, fitness). do {
          individual \<leftarrow> ptr_add population (deviceCount * n * number_of_variables para);
          let device_in_this_iter = min deviceCount (population_size para - deviceCount * n);
          row \<leftarrow> rd (train_set fit) batch_id;
          let fit = fit\<lparr>train_set := (train_set fit)[nat batch_id := find_force K para individual row False device_in_this_iter],
                       trace := trace fit @ [Find_force (Train batch_id) individual False device_in_this_iter]\<rparr>;
          score_chunk K deviceCount para batch_id n device_in_this_iter (fit, fitness)
        })"

text \<open>
  \<^verbatim>\<open>Fitness::compute\<close>; \<open>deviceCount\<close> is what \<^verbatim>\<open>cudaGetDeviceCount\<close> reports. The result is
  the object and the fitness array after the call.
\<close>

definition compute ::
  "Kernels \<Rightarrow> int \<Rightarrow> int \<Rightarrow> Parameters \<Rightarrow> real list \<Rightarrow> real list \<Rightarrow> Fitness \<Rightarrow> (Fitness \<times> real list) option" where
  "compute K deviceCount generation para population fitness fit =
     (if deviceCount = 0 then None
      else
        let min_population_iter = (population_size para - 1) sdiv deviceCount + 1 in
        if generation = 0 then
          map_option (\<lambda>fit'. (fit', fitness)) (compute_warmup K deviceCount para fit)
        else if num_batches fit = 0 then None
        else
          let batch_id = generation smod num_batches fit in
          compute_scoring K deviceCount para population min_population_iter batch_id (fit, fitness))"

section \<open>\<^verbatim>\<open>Fitness::predict_energy_or_stress\<close> and \<^verbatim>\<open>Fitness::update_energy_force_virial\<close>\<close>

text \<open>
  \<open>fid\<close> is the file written so far, \<open>data\<close> and \<open>ref\<close> the arrays the two pointers point
  into, from the pointers on. A line is the pair of numbers printed.
\<close>

definition predict_energy_or_stress ::
  "pair_line list \<Rightarrow> real list \<Rightarrow> real list \<Rightarrow> Dataset \<Rightarrow> pair_line list option" where
  "predict_energy_or_stress fid0 data ref dataset =
     for_loop 0 (Nc dataset)
       (\<lambda>nc fid. do {
          offset \<leftarrow> rd (Na_sum_cpu dataset) nc;
          na \<leftarrow> rd (Na_cpu dataset) nc;
          data_nc \<leftarrow> for_loop 0 na
            (\<lambda>m data_nc. do { x \<leftarrow> rd data (offset + m); Some (data_nc + x) }) 0;
          r \<leftarrow> rd ref nc;
          Some (fid @ [(data_nc / real_of_int na, r)])
        })
       fid0"

text \<open>
  \<^verbatim>\<open>GPU_Vector::copy_to_host\<close>: the whole device buffer is copied to the start of the host
  array, which must hold it.
\<close>

definition copy_to_host :: "real list \<Rightarrow> real list \<Rightarrow> real list option" where
  "copy_to_host gpu host =
     (if length gpu \<le> length host then Some (gpu @ drop (length gpu) host) else None)"

text \<open>The loop of lines 311 to 320 that writes the force file.\<close>

definition update_force :: "force_line list \<Rightarrow> Dataset \<Rightarrow> force_line list option" where
  "update_force fid0 dataset =
     for_loop 0 (Nc dataset)
       (\<lambda>nc fid. do {
          offset \<leftarrow> rd (Na_sum_cpu dataset) nc;
          natom \<leftarrow> rd (num_atom dataset) nc;
          for_loop 0 natom
            (\<lambda>m fid. do {
               let n = offset + m;
               f1 \<leftarrow> rd (force_cpu dataset) n;
               f2 \<leftarrow> rd (force_cpu dataset) (n + N dataset);
               f3 \<leftarrow> rd (force_cpu dataset) (n + N dataset * 2);
               r1 \<leftarrow> rd (force_ref_cpu dataset) n;
               r2 \<leftarrow> rd (force_ref_cpu dataset) (n + N dataset);
               r3 \<leftarrow> rd (force_ref_cpu dataset) (n + N dataset * 2);
               Some (fid @ [(f1, f2, f3, r1, r2, r3)])
             })
            fid
        })
       fid0"

text \<open>One of the six calls of lines 327 to 348 for the virial file, component \<open>k\<close>.\<close>

definition predict_virial :: "int \<Rightarrow> Dataset \<Rightarrow> pair_line list \<Rightarrow> pair_line list option" where
  "predict_virial k dataset fid = do {
     data \<leftarrow> ptr_add (virial_cpu dataset) (N dataset * k);
     ref \<leftarrow> ptr_add (virial_ref_cpu dataset) (Nc dataset * k);
     predict_energy_or_stress fid data ref dataset
   }"

definition update_energy_force_virial ::
  "pair_line list \<Rightarrow> force_line list \<Rightarrow> pair_line list \<Rightarrow> Dataset \<Rightarrow>
   (pair_line list \<times> force_line list \<times> pair_line list \<times> Dataset) option" where
  "update_energy_force_virial fid_energy fid_force fid_virial dataset0 = do {
     e \<leftarrow> copy_to_host (energy dataset0) (energy_cpu dataset0);
     v \<leftarrow> copy_to_host (virial dataset0) (virial_cpu dataset0);
     f \<leftarrow> copy_to_host (force dataset0) (force_cpu dataset0);
     let dataset = dataset0\<lparr>energy_cpu := e, virial_cpu := v, force_cpu := f\<rparr>;
     fid_force \<leftarrow> update_force fid_force dataset;
     fid_energy \<leftarrow> predict_energy_or_stress fid_energy (energy_cpu dataset) (energy_ref_cpu dataset) dataset;
     fid_virial \<leftarrow> predict_virial 0 dataset fid_virial;
     fid_virial \<leftarrow> predict_virial 1 dataset fid_virial;
     fid_virial \<leftarrow> predict_virial 2 dataset fid_virial;
     fid_virial \<leftarrow> predict_virial 3 dataset fid_virial;
     fid_virial \<leftarrow> predict_virial 4 dataset fid_virial;
     fid_virial \<leftarrow> predict_virial 5 dataset fid_virial;
     Some (fid_energy, fid_force, fid_virial, dataset)
   }"

section \<open>\<^verbatim>\<open>Fitness::report_error\<close>\<close>

text \<open>
  The loop of lines 291 to 294: each training batch is evaluated with the elite on one
  device, then \<^verbatim>\<open>train_set[0][batch_id]\<close> is dumped. The state is the object and the three
  training files.
\<close>

definition dump_train_set ::
  "Kernels \<Rightarrow> Parameters \<Rightarrow> real list \<Rightarrow> Fitness \<times> pair_line list \<times> force_line list \<times> pair_line list \<Rightarrow>
   (Fitness \<times> pair_line list \<times> force_line list \<times> pair_line list) option" where
  "dump_train_set K para elite s0 =
     for_loop 0 (num_batches (fst s0))
       (\<lambda>batch_id (fit, fid_energy, fid_force, fid_virial). do {
          row \<leftarrow> rd (train_set fit) batch_id;
          let fit = fit\<lparr>train_set := (train_set fit)[nat batch_id := find_force K para elite row False 1],
                       trace := trace fit @ [Find_force (Train batch_id) elite False 1]\<rparr>;
          row0 \<leftarrow> rd (train_set fit) 0;
          dataset \<leftarrow> rd row0 batch_id;
          (fid_energy, fid_force, fid_virial, dataset) \<leftarrow>
             update_energy_force_virial fid_energy fid_force fid_virial dataset;
          Some (fit\<lparr>train_set := (train_set fit)[0 := row0[nat batch_id := dataset]],
                    trace := trace fit @ [Dump_train 0 batch_id]\<rparr>,
                fid_energy, fid_force, fid_virial)
        })
       s0"

text \<open>
  The body of the test \<^verbatim>\<open>0 == (generation + 1) % 100\<close>, lines 174 to 299. Of \<^verbatim>\<open>nep.txt\<close> only
  the elite parameters (lines 234 to 236) are modelled, not its header nor the
  descriptor scaler; the copy of the line of \<^verbatim>\<open>loss.out\<close> to the console is left out.
\<close>

definition checkpoint ::
  "Kernels \<Rightarrow> Parameters \<Rightarrow> int \<Rightarrow> real \<Rightarrow> real \<Rightarrow> real \<Rightarrow> real list \<Rightarrow> Fitness \<Rightarrow> Files \<Rightarrow>
   (real list \<times> Fitness \<times> Files) option" where
  "checkpoint K para generation loss_total loss_L1 loss_L2 elite0 fit0 files0 =
     (if num_batches fit0 = 0 then None
      else do {
        let batch_id = generation smod num_batches fit0;
        row \<leftarrow> rd (train_set fit0) batch_id;
        let fit = fit0\<lparr>train_set := (train_set fit0)[nat batch_id := find_force K para elite0 row False 1],
                      trace := trace fit0 @ [Find_force (Train batch_id) elite0 False 1]\<rparr>;
        row \<leftarrow> rd (train_set fit) batch_id;
        d0 \<leftarrow> rd row 0;
        let (rmse_energy_train, energy_shift_per_structure) = get_rmse_energy K d0 False True 0;
        let rmse_force_train = get_rmse_force K para d0 False 0;
        let rmse_virial_train = get_rmse_virial K d0 False 0;
        last_bias \<leftarrow> rd elite0 (number_of_variables_ann para - 1);
        elite \<leftarrow> wr elite0 (number_of_variables_ann para - 1) (last_bias + energy_shift_per_structure);
        let fit = fit\<lparr>test_set := find_force K para elite (test_set fit) False 1,
                     trace := trace fit @ [Find_force Test elite False 1]\<rparr>;
        t0 \<leftarrow> rd (test_set fit) 0;
        let rmse_energy_test = fst (get_rmse_energy K t0 False False 0);
        let rmse_force_test = get_rmse_force K para t0 False 0;
        let rmse_virial_test = get_rmse_virial K t0 False 0;
        nep \<leftarrow> for_loop 0 (number_of_variables para)
                 (\<lambda>m out. do { x \<leftarrow> rd elite m; Some (out @ [x]) }) [];
        let files = files0\<lparr>nep_txt := nep\<rparr>;
        let fit = fit\<lparr>fid_loss_out := fid_loss_out fit @
                     [(generation + 1,
                       [loss_total, loss_L1, loss_L2, rmse_energy_train, rmse_force_train,
                        rmse_virial_train, rmse_energy_test, rmse_force_test, rmse_virial_test])]\<rparr>;
        (fid_energy, fid_force, fid_virial, t0) \<leftarrow> update_energy_force_virial [] [] [] t0;
        let fit = fit\<lparr>test_set := (test_set fit)[0 := t0], trace := trace fit @ [Dump_test]\<rparr>;
        let files = files\<lparr>energy_test_out := fid_energy, force_test_out := fid_force,
                          virial_test_out := fid_virial\<rparr>;
        if 0 = (generation + 1) smod 1000 then do {
          (fit, fid_energy, fid_force, fid_virial) \<leftarrow> dump_train_set K para elite (fit, [], [], []);
          Some (elite, fit, files\<lparr>energy_train_out := fid_energy, force_train_out := fid_force,
                                  virial_train_out := fid_virial\<rparr>)
        } else Some (elite, fit, files)
      })"

definition report_error ::
  "Kernels \<Rightarrow> Parameters \<Rightarrow> int \<Rightarrow> real \<Rightarrow> real \<Rightarrow> real \<Rightarrow> real list \<Rightarrow> Fitness \<Rightarrow> Files \<Rightarrow>
   (real list \<times> Fitness \<times> Files) option" where
  "report_error K para generation loss_total loss_L1 loss_L2 elite fit files =
     (if 0 = (generation + 1) smod 100
      then checkpoint K para generation loss_total loss_L1 loss_L2 elite fit files
      else Some (elite, fit, files))"

section \<open>The error measure of the specification\<close>

text \<open>
  Modelled from the spec: \<^verbatim>\<open>Dataset::get_rmse_energy\<close>, \<^verbatim>\<open>get_rmse_force\<close> and
  \<^verbatim>\<open>get_rmse_virial\<close> are defined in \<^verbatim>\<open>dataset.cu\<close>, which is not among the sources. The
  specification describes what they return as ``the square root of the mean squared
  residual over the relevant pooled set'': \<open>pred\<close> and \<open>ref\<close> are the predicted and the
  reference values of that set, in the same order.
\<close>

definition RMSE :: "real list \<Rightarrow> real list \<Rightarrow> real" where
  "RMSE pred ref = sqrt (sum_list (map2 (\<lambda>p r. (p - r)\<^sup>2) pred ref) / real (length ref))"

section \<open>Event sequences\<close>

text \<open>
  The events one run of the loop of lines 291 to 294 adds to the trace, for \<open>nb\<close> training
  batches, as the loop is written: batch \<open>b\<close> is evaluated, then \<^verbatim>\<open>train_set[0][b]\<close> is dumped.
\<close>

definition train_dump_events :: "real list \<Rightarrow> int \<Rightarrow> event list" where
  "train_dump_events elite nb =
     concat (map (\<lambda>b. [Find_force (Train b) elite False 1, Dump_train 0 b]) [0..nb - 1])"

text \<open>
  The events the warm-up loop of lines 126 to 129 adds, as the loop is written: for each
  batch \<open>n\<close>, the batch is evaluated on all devices, then the test set on one.
\<close>

definition warmup_events :: "real list \<Rightarrow> int \<Rightarrow> int \<Rightarrow> event list" where
  "warmup_events dummy deviceCount nb =
     concat (map (\<lambda>n. [Find_force (Train n) dummy True deviceCount, Find_force Test dummy True 1])
       [0..nb - 1])"

text \<open>
  The three entries of individual \<open>i\<close> in a fitness array for a population of \<open>P\<close>.
\<close>

definition fitness_of :: "int \<Rightarrow> real list \<Rightarrow> int \<Rightarrow> real \<times> real \<times> real" where
  "fitness_of P fitness i = (fitness ! nat i, fitness ! nat (i + P), fitness ! nat (i + 2 * P))"

text \<open>
  The Datasets of the chosen batch before chunk \<open>n\<close> is evaluated: \<open>row0\<close> at the start, and
  after each chunk what \<open>find_force\<close> of line 136 made of them.
\<close>

fun chunk_row :: "Kernels \<Rightarrow> int \<Rightarrow> Parameters \<Rightarrow> real list \<Rightarrow> Dataset list \<Rightarrow> nat \<Rightarrow> Dataset list" where
  "chunk_row K deviceCount para population row0 0 = row0"
| "chunk_row K deviceCount para population row0 (Suc n) =
     find_force K para
       (drop (nat (deviceCount * int n * number_of_variables para)) population)
       (chunk_row K deviceCount para population row0 n)
       False (min deviceCount (population_size para - deviceCount * int n))"

text \<open>
  The events of a scoring generation of \<open>nchunks\<close> chunks on batch \<open>batch_id\<close>, as the loops
  of lines 133 to 148 are written, and the individuals scored by a sequence of events.
\<close>

definition scoring_events :: "int \<Rightarrow> int \<Rightarrow> Parameters \<Rightarrow> real list \<Rightarrow> int \<Rightarrow> event list" where
  "scoring_events batch_id deviceCount para population nchunks =
     concat (map (\<lambda>n.
        Find_force (Train batch_id)
          (drop (nat (deviceCount * n * number_of_variables para)) population)
          False (min deviceCount (population_size para - deviceCount * n))
        # map (\<lambda>m. Score n m (deviceCount * n + m))
            [0..min deviceCount (population_size para - deviceCount * n) - 1])
       [0..nchunks - 1])"


section \<open>A small configuration\<close>

text \<open>
  Concrete inputs at which the theorems below are instantiated: Datasets of one structure
  of one atom with predicted energy \<open>e\<close> and reference energy \<open>r\<close>; two training batches on
  two devices; a potential whose \<open>find_force\<close> leaves the Datasets as they are; error
  routines that return \<open>RMSE\<close> of the buffers and, as the energy shift, predicted minus
  reference energy of the single structure.
\<close>

definition ex_dataset :: "real \<Rightarrow> real \<Rightarrow> Dataset" where
  "ex_dataset e r =
     \<lparr>Nc = 1, N = 1, Na_cpu = [1], Na_sum_cpu = [0], num_atom = [1],
      energy = [e], virial = [0, 0, 0, 0, 0, 0], force = [0, 0, 0],
      energy_cpu = [0], virial_cpu = [0, 0, 0, 0, 0, 0], force_cpu = [0, 0, 0],
      energy_ref_cpu = [r], virial_ref_cpu = [0, 0, 0, 0, 0, 0], force_ref_cpu = [0, 0, 0]\<rparr>"

definition ex_K :: Kernels where
  "ex_K =
     \<lparr>find_force = (\<lambda>para parameters dataset calculate_q_scaler device_in_this_iter. dataset),
      get_rmse_energy = (\<lambda>ds use_weight do_shift device_id.
         (RMSE (energy ds) (energy_ref_cpu ds),
          if do_shift then hd (energy ds) - hd (energy_ref_cpu ds) else 0)),
      get_rmse_force = (\<lambda>para ds use_weight device_id. RMSE (force ds) (force_ref_cpu ds)),
      get_rmse_virial = (\<lambda>ds use_weight device_id. RMSE (virial ds) (virial_ref_cpu ds))\<rparr>"

definition ex_para :: Parameters where
  "ex_para =
     \<lparr>batch_size = 1, population_size = 3, number_of_variables = 1,
      number_of_variables_ann = 1, lambda_e = 1, lambda_f = 1, lambda_v = 1\<rparr>"

definition ex_fit :: Fitness where
  "ex_fit =
     \<lparr>num_batches = 2,
      train_set = [[ex_dataset 11 10, ex_dataset 11 10], [ex_dataset 21 20, ex_dataset 21 20]],
      test_set = [ex_dataset 31 30, ex_dataset 31 30],
      fid_loss_out = [], trace = []\<rparr>"

definition ex_files :: Files where
  "ex_files =
     \<lparr>nep_txt = [], energy_test_out = [], force_test_out = [], virial_test_out = [],
      energy_train_out = [], force_train_out = [], virial_train_out = []\<rparr>"

section \<open>Facts about the loop combinator, integer division and array access\<close>

lemma for_loop_inv:
  assumes "I i s"
    and "\<And>j t. i \<le> j \<Longrightarrow> j < hi \<Longrightarrow> I j t \<Longrightarrow> \<exists>t'. body j t = Some t' \<and> I (j + 1) t'"
  shows "\<exists>t. for_loop i hi body s = Some t \<and> I (max i hi) t"
  using assms
proof (induction i hi body s rule: for_loop.induct)
  case (1 i hi body s)
  show ?case
  proof (cases "i < hi")
    case True
    from "1.prems"(2)[OF _ True "1.prems"(1)] obtain t' where t': "body i s = Some t'" "I (i + 1) t'"
      by auto
    have "\<exists>t. for_loop (i + 1) hi body t' = Some t \<and> I (max (i + 1) hi) t"
      using "1.IH"[OF True t'(1) t'(2)] "1.prems"(2) by force
    then show ?thesis using True t'(1) by (subst for_loop.simps) (simp add: max_def)
  next
    case False
    then show ?thesis using "1.prems"(1) by (subst for_loop.simps) (simp add: max_def)
  qed
qed

lemma for_loop_partial:
  assumes "for_loop i hi body s = Some t" "I i s"
    and "\<And>j u u'. i \<le> j \<Longrightarrow> j < hi \<Longrightarrow> I j u \<Longrightarrow> body j u = Some u' \<Longrightarrow> I (j + 1) u'"
  shows "I (max i hi) t"
  using assms
proof (induction i hi body s rule: for_loop.induct)
  case (1 i hi body s)
  show ?case
  proof (cases "i < hi")
    case True
    from "1.prems"(1) True obtain s' where s': "body i s = Some s'" "for_loop (i + 1) hi body s' = Some t"
      by (subst (asm) for_loop.simps) (auto split: option.splits)
    have "I (i + 1) s'" using "1.prems"(3)[OF _ True "1.prems"(2) s'(1)] by simp
    then have "I (max (i + 1) hi) t"
      using "1.IH"[OF True s'(1) s'(2)] "1.prems"(3) by force
    then show ?thesis using True by (simp add: max_def)
  next
    case False
    then have "t = s" using "1.prems"(1) by (subst (asm) for_loop.simps) simp
    then show ?thesis using False "1.prems"(2) by (simp add: max_def)
  qed
qed

lemma for_loop_append:
  "for_loop i hi (\<lambda>k acc. Some (acc @ [f k])) acc = Some (acc @ map f [i..hi - 1])"
proof (induction "nat (hi - i)" arbitrary: i acc)
  case 0
  then show ?case by (subst for_loop.simps) simp
next
  case (Suc n)
  then have lt: "i < hi" and n: "n = nat (hi - (i + 1))" by auto
  have "[i..hi - 1] = i # [i + 1..hi - 1]" using lt by (simp add: upto_rec1)
  then show ?case using Suc.hyps(1)[OF n] lt by (subst for_loop.simps) simp
qed

lemma ceil_div_bounds:
  fixes n b :: int
  assumes "0 < n" "0 < b"
  shows "((n - 1) div b) * b < n" "n \<le> ((n - 1) div b + 1) * b"
proof -
  have e: "b * ((n - 1) div b) + (n - 1) mod b = n - 1" by (rule mult_div_mod_eq)
  have m: "0 \<le> (n - 1) mod b" "(n - 1) mod b < b" using assms by simp_all
  have c: "((n - 1) div b) * b = b * ((n - 1) div b)"
    "((n - 1) div b + 1) * b = b * ((n - 1) div b) + b" by (simp_all add: algebra_simps)
  show "((n - 1) div b) * b < n" unfolding c using e m by linarith
  show "n \<le> ((n - 1) div b + 1) * b" unfolding c using e m by linarith
qed

lemma ceiling_divide_int:
  fixes n b :: int
  assumes "0 < n" "0 < b"
  shows "\<lceil>real_of_int n / real_of_int b\<rceil> = (n - 1) div b + 1"
proof (rule ceiling_eq)
  have "real_of_int ((n - 1) div b * b) < real_of_int n"
    using ceil_div_bounds(1)[OF assms] by linarith
  then show "real_of_int ((n - 1) div b) < real_of_int n / real_of_int b"
    using assms by (simp add: pos_less_divide_eq)
  have "real_of_int n \<le> real_of_int (((n - 1) div b + 1) * b)"
    using ceil_div_bounds(2)[OF assms] by linarith
  then show "real_of_int n / real_of_int b \<le> real_of_int ((n - 1) div b) + 1"
    using assms by (simp add: pos_divide_le_eq)
qed

lemma ranges_cover:
  fixes s N :: int
  assumes "0 < s" "0 \<le> N"
  shows "concat (map (\<lambda>k. [int k * s..min N (int k * s + s) - 1]) [0..<n]) = [0..min N (int n * s) - 1]"
proof (induction n)
  case 0
  then show ?case by simp
next
  case (Suc n)
  have "[0..min N (int (Suc n) * s) - 1] =
        [0..min N (int n * s) - 1] @ [int n * s..min N (int n * s + s) - 1]"
  proof (cases "N \<le> int n * s")
    case True
    then show ?thesis using assms by (simp add: min_def algebra_simps)
  next
    case False
    have "[0..min N (int (Suc n) * s) - 1] = [0..int n * s - 1] @ [int n * s..min N (int (Suc n) * s) - 1]"
      using False assms by (intro upto_split1) (auto simp: algebra_simps min_def)
    then show ?thesis using False by (simp add: min_def algebra_simps)
  qed
  then show ?case using Suc by simp
qed

lemma ranges_cover_int:
  fixes s N nb :: int
  assumes "0 < s" "0 \<le> N"
  shows "concat (map (\<lambda>(n1, n2). [n1..n2 - 1])
           (map (\<lambda>batch_id. (batch_id * s, min N (batch_id * s + s))) [0..nb - 1]))
         = [0..min N (nb * s) - 1]"
proof (cases "0 \<le> nb")
  case True
  have "[0..int n - 1] = map int [0..<n]" for n
    by (induction n) (simp_all add: upto_rec2)
  then have "[0..nb - 1] = map int [0..<nat nb]" using True
    by (metis int_nat_eq)
  then show ?thesis using ranges_cover[OF assms, of "nat nb"] True
    by (simp add: comp_def)
next
  case False
  then have "min N (nb * s) - 1 < 0" using assms
    by (smt (verit) mult_less_0_iff min.cobounded2)
  then show ?thesis using False by simp
qed

lemma u64_id: "0 \<le> x \<Longrightarrow> x < 2 ^ 64 \<Longrightarrow> u64 x = x"
  by (simp add: u64_def)

lemma i32_id: "- (2 ^ 31) \<le> x \<Longrightarrow> x < 2 ^ 31 \<Longrightarrow> i32 x = x"
  by (simp add: i32_def)

lemma smod_nonneg: "0 \<le> (a::int) \<Longrightarrow> 0 < b \<Longrightarrow> a smod b = a mod b"
  by (simp add: smod_int_alt_def sgn_if)

lemma smod_zero_iff: "0 \<le> (a::int) \<Longrightarrow> 0 < b \<Longrightarrow> (0 = a smod b) = (a mod b = 0)"
  by (auto simp: smod_nonneg)

lemma sdiv_nonneg: "0 \<le> (a::int) \<Longrightarrow> 0 < b \<Longrightarrow> a sdiv b = a div b"
  by (simp add: signed_divide_int_def sgn_if)

lemma div_mod_chunk:
  fixes d n i :: int
  assumes "0 < d" "d * n \<le> i" "i < d * n + d"
  shows "i div d = n" "i mod d = i - d * n"
proof -
  have "i = n * d + (i - d * n)" by (simp add: algebra_simps)
  moreover have "0 \<le> i - d * n" "i - d * n < d" using assms by simp_all
  ultimately have "i div d = n \<and> i mod d = i - d * n"
    by (metis div_mult_self3 mod_mult_self3 div_pos_pos_trivial mod_pos_pos_trivial
        add.commute add.right_neutral assms(1) less_irrefl)
  then show "i div d = n" "i mod d = i - d * n" by simp_all
qed

lemma rotation_window:
  fixes g nb :: int
  assumes "0 < nb"
  shows "distinct (map (\<lambda>k. (g + k) mod nb) [0..nb - 1])"
    and "set (map (\<lambda>k. (g + k) mod nb) [0..nb - 1]) = {0..nb - 1}"
proof -
  have inj: "inj_on (\<lambda>k. (g + k) mod nb) {0..nb - 1}"
  proof (rule inj_onI)
    fix x y assume x: "x \<in> {0..nb - 1}" and y: "y \<in> {0..nb - 1}"
      and e: "(g + x) mod nb = (g + y) mod nb"
    then have "x mod nb = y mod nb"
      by (metis mod_add_cong mod_add_left_eq add_diff_cancel_left' mod_diff_cong)
    then show "x = y" using x y by simp
  qed
  show "distinct (map (\<lambda>k. (g + k) mod nb) [0..nb - 1])"
    using inj by (simp add: distinct_map)
  have "(\<lambda>k. (g + k) mod nb) ` {0..nb - 1} \<subseteq> {0..nb - 1}" using assms by auto
  moreover have "card ((\<lambda>k. (g + k) mod nb) ` {0..nb - 1}) = card {0..nb - 1}"
    using inj by (rule card_image)
  ultimately have "(\<lambda>k. (g + k) mod nb) ` {0..nb - 1} = {0..nb - 1}"
    by (intro card_subset_eq) simp_all
  then show "set (map (\<lambda>k. (g + k) mod nb) [0..nb - 1]) = {0..nb - 1}" by simp
qed


lemma rd_Some_iff: "rd xs i = Some v \<longleftrightarrow> 0 \<le> i \<and> i < int (length xs) \<and> v = xs ! nat i"
  by (auto simp: rd_def)

lemma rd_update_same: "rd xs i = Some v \<Longrightarrow> rd (xs[nat i := w]) i = Some w"
  by (auto simp: rd_def split: if_splits)

lemma wr_Some_iff: "wr xs i v = Some ys \<longleftrightarrow> 0 \<le> i \<and> i < int (length xs) \<and> ys = xs[nat i := v]"
  by (auto simp: wr_def)

section \<open>Evaluation at the small configuration\<close>

lemmas ex_defs = ex_dataset_def ex_K_def ex_para_def ex_fit_def ex_files_def

lemmas run_defs = report_error_def checkpoint_def dump_train_set_def update_energy_force_virial_def
  update_force_def predict_virial_def predict_energy_or_stress_def copy_to_host_def ptr_add_def
  rd_def wr_def for_loop.simps Let_def RMSE_def smod_int_alt_def

section \<open>The batch partition\<close>

text \<open>
  C2. For a training set of \<open>sz > 0\<close> structures and a requested batch size \<open>b > 0\<close>
  (the set small enough for the \<^verbatim>\<open>int\<close> arithmetic of the loop, at most \<open>2^30\<close>
  structures), the constructor sets \<^verbatim>\<open>num_batches\<close> to \<open>\<lceil>sz / b\<rceil>\<close>, overwrites
  \<^verbatim>\<open>para.batch_size\<close> with \<open>s = \<lceil>sz / num_batches\<rceil>\<close>, and constructs batch \<open>batch_id\<close> from
  the range \<open>[batch_id * s, min sz (batch_id * s + s))\<close>. Every range is non-empty and
  inside \<open>[0, sz)\<close>, and the ranges laid end to end are \<open>0, 1, \<dots>, sz - 1\<close>: contiguous,
  disjoint, covering every structure once.
\<close>

theorem batch_partition_covers:
  assumes "0 < sz" "int sz \<le> 2 ^ 30" "0 < batch_size para" "batch_size para < 2 ^ 31"
  shows "\<exists>nb s ranges.
     Fitness_batches sz para = Some (nb, para\<lparr>batch_size := s\<rparr>, ranges) \<and>
     nb = \<lceil>real sz / real_of_int (batch_size para)\<rceil> \<and>
     s = \<lceil>real sz / real_of_int nb\<rceil> \<and>
     ranges = map (\<lambda>batch_id. (batch_id * s, min (int sz) (batch_id * s + s))) [0..nb - 1] \<and>
     (\<forall>(n1, n2) \<in> set ranges. 0 \<le> n1 \<and> n1 < n2 \<and> n2 \<le> int sz \<and> n1 + s < 2 ^ 31) \<and>
     concat (map (\<lambda>(n1, n2). [n1..n2 - 1]) ranges) = [0..int sz - 1]"
proof -
  define N where "N = int sz"
  define b where "b = batch_size para"
  define nb where "nb = (N - 1) div b + 1"
  define s where "s = (N - 1) div nb + 1"
  have N: "0 < N" "N \<le> 2 ^ 30" using assms by (simp_all add: N_def)
  have b: "0 < b" "b < 2 ^ 31" using assms by (simp_all add: b_def)
  have q0: "0 \<le> (N - 1) div b" using N b by (simp add: pos_imp_zdiv_nonneg_iff)
  have q1: "(N - 1) div b \<le> N - 1" using N int_div_le_self[of "N - 1" b] by (cases "N - 1 = 0") simp_all
  have nb: "0 < nb" "nb \<le> N" using q0 q1 by (simp_all add: nb_def)
  have r0: "0 \<le> (N - 1) div nb" using N nb by (simp add: pos_imp_zdiv_nonneg_iff)
  have r1: "(N - 1) div nb \<le> N - 1" using N int_div_le_self[of "N - 1" nb] by (cases "N - 1 = 0") simp_all
  have s: "0 < s" "s \<le> N" using r0 r1 by (simp_all add: s_def)
  have cover: "N \<le> nb * s" using ceil_div_bounds(2)[OF N(1) nb(1)] by (simp add: s_def mult.commute)
  have nbb: "N \<le> nb * b" "(nb - 1) * b < N"
    using ceil_div_bounds[OF N(1) b(1)] by (simp_all add: nb_def)
  have sb: "s \<le> b"
  proof -
    have "nb * ((N - 1) div nb) \<le> N - 1"
      using ceil_div_bounds(1)[OF N(1) nb(1)] by (simp add: mult.commute)
    also have "N - 1 < nb * b" using nbb(1) by simp
    finally have "(N - 1) div nb < b" using nb(1) by (simp add: mult_less_cancel_left_pos)
    then show ?thesis by (simp add: s_def)
  qed
  have last: "(nb - 1) * s < N"
  proof -
    have "(nb - 1) * s \<le> (nb - 1) * b" using sb nb(1) by (intro mult_left_mono) simp_all
    then show ?thesis using nbb(2) by linarith
  qed
  have Nrange: "u64 (N - 1) = N - 1" using N by (intro u64_id) simp_all
  have brange: "u64 b = b" using b by (intro u64_id) simp_all
  have nbrange: "i32 (u64 ((N - 1) div b + 1)) = nb" "u64 nb = nb"
    using nb N by (simp_all add: u64_id i32_id nb_def[symmetric])
  have srange: "i32 (u64 ((N - 1) div nb + 1)) = s"
    using s N by (simp add: u64_id i32_id s_def[symmetric])
  have Ni: "i32 N = N" using N by (intro i32_id) simp_all
  let ?ranges = "map (\<lambda>batch_id. (batch_id * s, min N (batch_id * s + s))) [0..nb - 1]"
  have run: "Fitness_batches sz para = Some (nb, para\<lparr>batch_size := s\<rparr>, ?ranges)"
    using b(1) nb(1)
    by (simp add: Fitness_batches_def Let_def N_def[symmetric] b_def[symmetric] Nrange brange
        nbrange srange Ni for_loop_append)
  have c1: "nb = \<lceil>real sz / real_of_int (batch_size para)\<rceil>"
    using ceiling_divide_int[OF N(1) b(1)] by (simp add: nb_def N_def b_def)
  have c2: "s = \<lceil>real sz / real_of_int nb\<rceil>"
    using ceiling_divide_int[OF N(1) nb(1)] by (simp add: s_def N_def)
  have c3: "\<forall>(n1, n2) \<in> set ?ranges. 0 \<le> n1 \<and> n1 < n2 \<and> n2 \<le> N \<and> n1 + s < 2 ^ 31"
  proof -
    have "0 \<le> k * s \<and> k * s < min N (k * s + s) \<and> min N (k * s + s) \<le> N \<and> k * s + s < 2 ^ 31"
      if k: "0 \<le> k" "k \<le> nb - 1" for k
    proof -
      have ks: "k * s \<le> (nb - 1) * s" using k s(1) by (intro mult_right_mono) simp_all
      have "0 \<le> k * s" using k s(1) by simp
      moreover have "k * s < N" using ks last by linarith
      moreover have "k * s + s < 2 ^ 31" using ks last s(2) N(2) by simp
      ultimately show ?thesis using s(1) by simp
    qed
    then show ?thesis by auto
  qed
  have c4: "concat (map (\<lambda>(n1, n2). [n1..n2 - 1]) ?ranges) = [0..N - 1]"
    using ranges_cover_int[OF s(1), of N nb] N(1) cover by (simp add: min_def)
  show ?thesis using run c1 c2 c3 c4 unfolding N_def by blast
qed

theorem batch_partition_covers_witness:
  "Fitness_batches 7 \<lparr>batch_size = 5, population_size = 3, number_of_variables = 1,
       number_of_variables_ann = 1, lambda_e = 1, lambda_f = 1, lambda_v = 1\<rparr>
   = Some (2, \<lparr>batch_size = 4, population_size = 3, number_of_variables = 1,
       number_of_variables_ann = 1, lambda_e = 1, lambda_f = 1, lambda_v = 1\<rparr>, [(0, 4), (4, 7)])"
  using batch_partition_covers [of 7 "\<lparr>batch_size = 5, population_size = 3, number_of_variables = 1,
       number_of_variables_ann = 1, lambda_e = 1, lambda_f = 1, lambda_v = 1\<rparr>"]
  by (simp add: upto_rec1)

section \<open>The scoring loops\<close>

lemma write3:
  fixes f :: "real list" and a b e :: real and c P :: int
  assumes "0 \<le> c" "c < P" "3 * P \<le> int (length f)"
  defines "f' \<equiv> f[nat c := a, nat (c + P) := b, nat (c + 2 * P) := e]"
  shows "wr f c a = Some (f[nat c := a])
     \<and> wr (f[nat c := a]) (c + P) b = Some (f[nat c := a, nat (c + P) := b])
     \<and> wr (f[nat c := a, nat (c + P) := b]) (c + 2 * P) e = Some f'
     \<and> length f' = length f
     \<and> fitness_of P f' c = (a, b, e)
     \<and> (\<forall>i. 0 \<le> i \<and> i < P \<and> i \<noteq> c \<longrightarrow> fitness_of P f' i = fitness_of P f i)
     \<and> (\<forall>j. 3 * P \<le> int j \<longrightarrow> f' ! j = f ! j)"
proof -
  have w: "wr f c a = Some (f[nat c := a])"
    "wr (f[nat c := a]) (c + P) b = Some (f[nat c := a, nat (c + P) := b])"
    "wr (f[nat c := a, nat (c + P) := b]) (c + 2 * P) e = Some f'"
    using assms(1-3) by (simp_all add: wr_def f'_def)
  have l: "length f' = length f" by (simp add: f'_def)
  have s: "fitness_of P f' c = (a, b, e)"
    using assms(1-3) by (simp add: fitness_of_def nat_add_distrib f'_def)
  have o: "fitness_of P f' i = fitness_of P f i" if "0 \<le> i \<and> i < P \<and> i \<noteq> c" for i
  proof -
    have "nat i \<noteq> nat c" "nat i \<noteq> nat (c + P)" "nat i \<noteq> nat (c + 2 * P)"
      "nat (i + P) \<noteq> nat c" "nat (i + P) \<noteq> nat (c + P)" "nat (i + P) \<noteq> nat (c + 2 * P)"
      "nat (i + 2 * P) \<noteq> nat c" "nat (i + 2 * P) \<noteq> nat (c + P)" "nat (i + 2 * P) \<noteq> nat (c + 2 * P)"
      using that assms(1-3) by auto
    then show ?thesis by (simp add: fitness_of_def f'_def)
  qed
  have t: "f' ! j = f ! j" if "3 * P \<le> int j" for j
  proof -
    have "j \<noteq> nat c" "j \<noteq> nat (c + P)" "j \<noteq> nat (c + 2 * P)" using that assms(1-3) by auto
    then show ?thesis by (simp add: f'_def)
  qed
  show ?thesis using w l s o t by blast
qed

lemma score_chunk_run:
  fixes para :: Parameters and fit :: Fitness
  defines "P \<equiv> population_size para"
  assumes b: "0 \<le> b" "b < int (length (train_set fit))"
    and dev: "dev \<le> int (length (train_set fit ! nat b))"
    and c: "0 \<le> d * n" "d * n + dev \<le> P"
    and len: "3 * P \<le> int (length fitness)"
  shows "\<exists>fitness'.
       score_chunk K d para b n dev (fit, fitness)
         = Some (fit\<lparr>trace := trace fit @ map (\<lambda>m. Score n m (d * n + m)) [0..dev - 1]\<rparr>, fitness')
     \<and> length fitness' = length fitness
     \<and> (\<forall>i. 0 \<le> i \<and> i < P \<longrightarrow> fitness_of P fitness' i =
           (if d * n \<le> i \<and> i < d * n + dev
            then fitness_components K para (train_set fit ! nat b ! nat (i - d * n)) (i - d * n)
            else fitness_of P fitness i))
     \<and> (\<forall>j. 3 * P \<le> int j \<longrightarrow> fitness' ! j = fitness ! j)"
proof -
  let ?row = "train_set fit ! nat b"
  let ?comp = "\<lambda>i. fitness_components K para (?row ! nat (i - d * n)) (i - d * n)"
  let ?body = "\<lambda>m (fit, fitness). do {
          row \<leftarrow> rd (train_set fit) b;
          ds \<leftarrow> rd row m;
          let (fe, ff, fv) = fitness_components K para ds m;
          fitness \<leftarrow> wr fitness (d * n + m + 0 * population_size para) fe;
          fitness \<leftarrow> wr fitness (d * n + m + 1 * population_size para) ff;
          fitness \<leftarrow> wr fitness (d * n + m + 2 * population_size para) fv;
          Some (fit\<lparr>trace := trace fit @ [Score n m (d * n + m)]\<rparr>, fitness)
        }"
  let ?I = "\<lambda>j (s :: Fitness \<times> real list).
       fst s = fit\<lparr>trace := trace fit @ map (\<lambda>m. Score n m (d * n + m)) [0..j - 1]\<rparr>
     \<and> length (snd s) = length fitness
     \<and> (\<forall>i. 0 \<le> i \<and> i < P \<longrightarrow> fitness_of P (snd s) i =
           (if d * n \<le> i \<and> i < d * n + j then ?comp i else fitness_of P fitness i))
     \<and> (\<forall>k. 3 * P \<le> int k \<longrightarrow> snd s ! k = fitness ! k)"
  have "\<exists>t. for_loop 0 dev ?body (fit, fitness) = Some t \<and> ?I (max 0 dev) t"
  proof (rule for_loop_inv[where I = ?I])
    show "?I 0 (fit, fitness)" by auto
  next
    fix j and t :: "Fitness \<times> real list"
    assume j: "0 \<le> j" "j < dev" and I: "?I j t"
    obtain fj fl where t: "t = (fj, fl)" by (cases t)
    have fj: "fj = fit\<lparr>trace := trace fit @ map (\<lambda>m. Score n m (d * n + m)) [0..j - 1]\<rparr>"
      and ll: "length fl = length fitness"
      and Ii: "\<And>i. 0 \<le> i \<Longrightarrow> i < P \<Longrightarrow> fitness_of P fl i =
           (if d * n \<le> i \<and> i < d * n + j then ?comp i else fitness_of P fitness i)"
      and Ik: "\<And>k. 3 * P \<le> int k \<Longrightarrow> fl ! k = fitness ! k"
      using I unfolding t by simp_all
    have r1: "rd (train_set fit) b = Some ?row" using b by (simp add: rd_def)
    have r2: "rd ?row j = Some (?row ! nat j)" using j dev by (simp add: rd_def)
    obtain fe ff fv where cmp: "fitness_components K para (?row ! nat j) j = (fe, ff, fv)"
      by (cases "fitness_components K para (?row ! nat j) j")
    have cb: "0 \<le> d * n + j" "d * n + j < P" "3 * P \<le> int (length fl)"
      using j c len ll by simp_all
    let ?fl' = "fl[nat (d * n + j) := fe, nat (d * n + j + P) := ff, nat (d * n + j + 2 * P) := fv]"
    from write3[OF cb, of fe ff fv]
    have w: "wr fl (d * n + j) fe = Some (fl[nat (d * n + j) := fe])"
      "wr (fl[nat (d * n + j) := fe]) (d * n + j + P) ff
         = Some (fl[nat (d * n + j) := fe, nat (d * n + j + P) := ff])"
      "wr (fl[nat (d * n + j) := fe, nat (d * n + j + P) := ff]) (d * n + j + 2 * P) fv = Some ?fl'"
      "length ?fl' = length fl"
      "fitness_of P ?fl' (d * n + j) = (fe, ff, fv)"
      "\<And>i. 0 \<le> i \<and> i < P \<and> i \<noteq> d * n + j \<Longrightarrow> fitness_of P ?fl' i = fitness_of P fl i"
      "\<And>k. 3 * P \<le> int k \<Longrightarrow> ?fl' ! k = fl ! k"
      by blast+
    have up: "[0..j] = [0..j - 1] @ [j]" using j by (simp add: upto_rec2)
    let ?t' = "(fit\<lparr>trace := trace fit @ map (\<lambda>m. Score n m (d * n + m)) [0..j + 1 - 1]\<rparr>, ?fl')"
    have step: "?body j t = Some ?t'"
      unfolding t by (simp add: r1 r2 cmp w(1,2,3) P_def[symmetric] fj up)
    have "?I (j + 1) ?t'"
    proof (intro conjI allI impI)
      show "fst ?t' = fit\<lparr>trace := trace fit @ map (\<lambda>m. Score n m (d * n + m)) [0..j + 1 - 1]\<rparr>"
        by simp
      show "length (snd ?t') = length fitness" using ll by simp
    next
      fix i assume i: "0 \<le> i \<and> i < P"
      show "fitness_of P (snd ?t') i =
           (if d * n \<le> i \<and> i < d * n + (j + 1) then ?comp i else fitness_of P fitness i)"
      proof (cases "i = d * n + j")
        case True
        then show ?thesis using w(5) cmp j by simp
      next
        case False
        then have "fitness_of P ?fl' i = fitness_of P fl i" using w(6) i by simp
        then show ?thesis using Ii[of i] i False by auto
      qed
    next
      fix k assume "3 * P \<le> int k"
      then show "snd ?t' ! k = fitness ! k" using w(7)[of k] Ik[of k] by simp
    qed
    then show "\<exists>t'. ?body j t = Some t' \<and> ?I (j + 1) t'" using step by blast
  qed
  then obtain t where run: "for_loop 0 dev ?body (fit, fitness) = Some t" and It: "?I (max 0 dev) t"
    by blast
  have m0: "[0..max 0 dev - 1] = [0..dev - 1]" by (simp add: max_def)
  have "?I dev t"
  proof (cases "0 \<le> dev")
    case True
    then show ?thesis using It by (simp add: max_def)
  next
    case False
    then have e1: "(d * n \<le> i \<and> i < d * n + dev) = (d * n \<le> i \<and> i < d * n + 0)" for i by auto
    have e2: "[0..dev - 1] = [0..0 - 1]" using False by simp
    have m: "max 0 dev = 0" using False by simp
    have I0: "?I 0 t" using It unfolding m .
    show ?thesis unfolding e1 e2 using I0 .
  qed
  then show ?thesis
    using run unfolding score_chunk_def by (cases t) auto
qed

lemma length_chunk_row:
  assumes "\<And>p ps dss c k. length (find_force K p ps dss c k) = length dss"
  shows "length (chunk_row K d para population row0 n) = length row0"
  by (induction n) (simp_all add: assms)

lemma compute_scoring_run:
  fixes para :: Parameters and fit :: Fitness and b d :: int and K :: Kernels
    and population :: "real list"
  defines "P \<equiv> population_size para" and "nv \<equiv> number_of_variables para"
  defines "row0 \<equiv> train_set fit ! nat b"
  defines "nch \<equiv> (P - 1) div d + 1"
  defines "target \<equiv> \<lambda>i. fitness_components K para
      (chunk_row K d para population row0 (Suc (nat (i div d))) ! nat (i mod d)) (i mod d)"
  assumes d: "0 < d" and P: "0 < P" and nv: "0 \<le> nv"
    and b: "0 \<le> b" "b < int (length (train_set fit))"
    and row: "d \<le> int (length row0)"
    and ffl: "\<And>p ps dss c k. length (find_force K p ps dss c k) = length dss"
    and pop: "P * nv \<le> int (length population)"
    and len: "3 * P \<le> int (length fitness)"
  shows "\<exists>fitness'.
       compute_scoring K d para population nch b (fit, fitness)
         = Some (fit\<lparr>train_set := (train_set fit)[nat b := chunk_row K d para population row0 (nat nch)],
                     trace := trace fit @ scoring_events b d para population nch\<rparr>, fitness')
     \<and> length fitness' = length fitness
     \<and> (\<forall>i. 0 \<le> i \<and> i < P \<longrightarrow> fitness_of P fitness' i = target i)
     \<and> (\<forall>j. 3 * P \<le> int j \<longrightarrow> fitness' ! j = fitness ! j)"
proof -
  let ?cr = "chunk_row K d para population row0"
  let ?st = "\<lambda>n. fit\<lparr>train_set := (train_set fit)[nat b := ?cr (nat n)],
                     trace := trace fit @ scoring_events b d para population n\<rparr>"
  let ?body = "\<lambda>n (fit, fitness). do {
          individual \<leftarrow> ptr_add population (d * n * number_of_variables para);
          let device_in_this_iter = min d (population_size para - d * n);
          row \<leftarrow> rd (train_set fit) b;
          let fit = fit\<lparr>train_set := (train_set fit)[nat b := find_force K para individual row False device_in_this_iter],
                       trace := trace fit @ [Find_force (Train b) individual False device_in_this_iter]\<rparr>;
          score_chunk K d para b n device_in_this_iter (fit, fitness)
        }"
  let ?I = "\<lambda>n (s :: Fitness \<times> real list).
       fst s = ?st n
     \<and> length (snd s) = length fitness
     \<and> (\<forall>i. 0 \<le> i \<and> i < P \<longrightarrow> fitness_of P (snd s) i =
           (if i < d * n then target i else fitness_of P fitness i))
     \<and> (\<forall>k. 3 * P \<le> int k \<longrightarrow> snd s ! k = fitness ! k)"
  have nch0: "0 < nch" using P d by (simp add: nch_def pos_imp_zdiv_nonneg_iff add_pos_nonneg)
  have cover: "P \<le> d * nch"
    using ceil_div_bounds(2)[OF P d] by (simp add: nch_def mult.commute)
  have "\<exists>t. for_loop 0 nch ?body (fit, fitness) = Some t \<and> ?I (max 0 nch) t"
  proof (rule for_loop_inv[where I = ?I])
    have "?st 0 = fit" using b by (simp add: row0_def scoring_events_def)
    then show "?I 0 (fit, fitness)" using d by (simp add: mult_less_0_iff)
  next
    fix n and t :: "Fitness \<times> real list"
    assume n: "0 \<le> n" "n < nch" and I: "?I n t"
    obtain fj fl where t: "t = (fj, fl)" by (cases t)
    have fj: "fj = ?st n"
      and ll: "length fl = length fitness"
      and Ii: "\<And>i. 0 \<le> i \<Longrightarrow> i < P \<Longrightarrow> fitness_of P fl i =
           (if i < d * n then target i else fitness_of P fitness i)"
      and Ik: "\<And>k. 3 * P \<le> int k \<Longrightarrow> fl ! k = fitness ! k"
      using I unfolding t by simp_all
    have "n \<le> (P - 1) div d" using n by (simp add: nch_def)
    then have "d * n \<le> d * ((P - 1) div d)" using d by (intro mult_left_mono) simp_all
    also have "\<dots> \<le> P - 1" using ceil_div_bounds(1)[OF P d] by (simp add: mult.commute)
    finally have dn: "d * n < P" by simp
    have dn0: "0 \<le> d * n" using d n by simp
    define dev where "dev = min d (P - d * n)"
    have dev: "0 < dev" "dev \<le> d" "d * n + dev \<le> P" using d dn by (simp_all add: dev_def)
    have "d * n * nv \<le> P * nv" using dn nv by (intro mult_right_mono) simp_all
    then have off: "0 \<le> d * n * nv" "d * n * nv \<le> int (length population)"
      using dn0 nv pop by simp_all
    define ind where "ind = drop (nat (d * n * nv)) population"
    have pa: "ptr_add population (d * n * nv) = Some ind"
      using off by (simp add: ptr_add_def ind_def)
    have r1: "rd ((train_set fit)[nat b := ?cr (nat n)]) b = Some (?cr (nat n))"
      using b by (simp add: rd_def)
    have cr: "find_force K para ind (?cr (nat n)) False dev = ?cr (nat (n + 1))"
      using n by (simp add: nat_add_distrib ind_def dev_def P_def nv_def)
    define f1 where "f1 = fit\<lparr>train_set := (train_set fit)[nat b := find_force K para ind (?cr (nat n)) False dev],
        trace := trace fit @ scoring_events b d para population n @ [Find_force (Train b) ind False dev]\<rparr>"
    have b1: "b < int (length (train_set f1))" using b by (simp add: f1_def)
    have rw: "train_set f1 ! nat b = ?cr (nat (n + 1))" using b cr by (simp add: f1_def)
    have d1: "dev \<le> int (length (train_set f1 ! nat b))"
      unfolding rw using dev row by (simp add: length_chunk_row[OF ffl])
    have l1: "3 * population_size para \<le> int (length fl)" using len ll by (simp add: P_def)
    from score_chunk_run[OF b(1) b1 d1 dn0 dev(3)[unfolded P_def] l1, of K]
    obtain fl' where sc: "score_chunk K d para b n dev (f1, fl)
         = Some (f1\<lparr>trace := trace f1 @ map (\<lambda>m. Score n m (d * n + m)) [0..dev - 1]\<rparr>, fl')"
      and ll': "length fl' = length fl"
      and Si: "\<And>i. 0 \<le> i \<Longrightarrow> i < P \<Longrightarrow> fitness_of P fl' i =
           (if d * n \<le> i \<and> i < d * n + dev
            then fitness_components K para (?cr (nat (n + 1)) ! nat (i - d * n)) (i - d * n)
            else fitness_of P fl i)"
      and Sk: "\<And>j. 3 * P \<le> int j \<Longrightarrow> fl' ! j = fl ! j"
      unfolding rw P_def[symmetric] by blast
    have up: "[0..n] = [0..n - 1] @ [n]" using n by (simp add: upto_rec2)
    have ev: "scoring_events b d para population (n + 1) =
        scoring_events b d para population n @
          Find_force (Train b) ind False dev # map (\<lambda>m. Score n m (d * n + m)) [0..dev - 1]"
      by (simp add: scoring_events_def up ind_def dev_def P_def nv_def)
    have st: "f1\<lparr>trace := trace f1 @ map (\<lambda>m. Score n m (d * n + m)) [0..dev - 1]\<rparr> = ?st (n + 1)"
      unfolding f1_def cr by (simp add: ev)
    have pa': "ptr_add population (d * n * number_of_variables para) = Some ind"
      using pa by (simp add: nv_def)
    have dv: "min d (population_size para - d * n) = dev" by (simp add: dev_def P_def)
    have "?body n t = score_chunk K d para b n dev (f1, fl)"
      unfolding t fj f1_def by (simp add: pa' dv r1)
    then have step: "?body n t = Some (?st (n + 1), fl')"
      unfolding sc st .
    have "?I (n + 1) (?st (n + 1), fl')"
    proof (intro conjI allI impI)
      show "fst (?st (n + 1), fl') = ?st (n + 1)" by simp
      show "length (snd (?st (n + 1), fl')) = length fitness" using ll ll' by simp
    next
      fix i assume i: "0 \<le> i \<and> i < P"
      show "fitness_of P (snd (?st (n + 1), fl')) i =
           (if i < d * (n + 1) then target i else fitness_of P fitness i)"
      proof (cases "d * n \<le> i \<and> i < d * n + d")
        case True
        then have "i < d * n + dev" using i by (auto simp: dev_def min_def)
        moreover have dm: "i div d = n" "i mod d = i - d * n"
          using div_mod_chunk[OF d, of n i] True by simp_all
        have sn: "Suc (nat n) = nat (n + 1)" using n by simp
        have tg: "target i = fitness_components K para (?cr (nat (n + 1)) ! nat (i - d * n)) (i - d * n)"
          unfolding target_def dm sn ..
        have lt: "i < d * (n + 1)" using True by (simp add: distrib_left)
        ultimately have "fitness_of P fl' i = target i" using Si[of i] i True unfolding tg by simp
        then show ?thesis using lt by simp
      next
        case False
        then have "\<not> (d * n \<le> i \<and> i < d * n + dev)" using dev(2) by auto
        then have "fitness_of P fl' i = fitness_of P fl i" using Si[of i] i by auto
        moreover have "(i < d * (n + 1)) = (i < d * n)" using False d by (auto simp: distrib_left)
        ultimately show ?thesis using Ii[of i] i by simp
      qed
    next
      fix k assume "3 * P \<le> int k"
      then show "snd (?st (n + 1), fl') ! k = fitness ! k" using Sk[of k] Ik[of k] by simp
    qed
    then show "\<exists>t'. ?body n t = Some t' \<and> ?I (n + 1) t'" using step by blast
  qed
  then obtain t where run: "for_loop 0 nch ?body (fit, fitness) = Some t" and It: "?I nch t"
    using nch0 by (auto simp: max_def)
  obtain ft fl where t: "t = (ft, fl)" by (cases t)
  have "\<forall>i. 0 \<le> i \<and> i < P \<longrightarrow> fitness_of P fl i = target i"
    using It cover unfolding t by auto
  then show ?thesis
    using run It unfolding compute_scoring_def t by auto
qed






lemma compute_scoring_generation:
  fixes para :: Parameters and fit :: Fitness and g deviceCount :: int
  defines "P \<equiv> population_size para"
  defines "b \<equiv> g mod num_batches fit"
  assumes "0 < g" "0 < deviceCount" "0 < P" "0 \<le> number_of_variables para"
    and "0 < num_batches fit" "num_batches fit \<le> int (length (train_set fit))"
    and "deviceCount \<le> int (length (train_set fit ! nat b))"
    and "\<forall>p ps dss c k. length (find_force K p ps dss c k) = length dss"
    and "P * number_of_variables para \<le> int (length population)"
    and "3 * P \<le> int (length fitness)"
  shows "\<exists>fit' fitness'.
       compute K deviceCount g para population fitness fit = Some (fit', fitness')
     \<and> trace fit' = trace fit @
          scoring_events b deviceCount para population \<lceil>real_of_int P / real_of_int deviceCount\<rceil>
     \<and> length fitness' = length fitness
     \<and> (\<forall>i. 0 \<le> i \<and> i < P \<longrightarrow> fitness_of P fitness' i =
          fitness_components K para
            (chunk_row K deviceCount para population (train_set fit ! nat b)
               (Suc (nat (i div deviceCount))) ! nat (i mod deviceCount))
            (i mod deviceCount))
     \<and> (\<forall>j. 3 * P \<le> int j \<longrightarrow> fitness' ! j = fitness ! j)"
proof -
  have b: "0 \<le> b" "b < int (length (train_set fit))"
    using assms(7,8) by (simp_all add: b_def) (smt (verit) pos_mod_bound)
  have sm: "g smod num_batches fit = b"
    using assms(3,7) by (simp add: smod_nonneg b_def)
  have sd: "(P - 1) sdiv deviceCount + 1 = (P - 1) div deviceCount + 1"
    using assms(4,5) by (simp add: sdiv_nonneg)
  have ce: "\<lceil>real_of_int P / real_of_int deviceCount\<rceil> = (P - 1) div deviceCount + 1"
    using assms(4,5) by (intro ceiling_divide_int)
  have ffl: "\<And>p ps dss c k. length (find_force K p ps dss c k) = length dss"
    using assms(10) by blast
  from compute_scoring_run[OF assms(4) assms(5)[unfolded P_def] assms(6) b assms(9) ffl
      assms(11)[unfolded P_def] assms(12)[unfolded P_def]]
  obtain fitness' where
    "compute_scoring K deviceCount para population ((P - 1) div deviceCount + 1) b (fit, fitness)
       = Some (fit\<lparr>train_set := (train_set fit)[nat b :=
                 chunk_row K deviceCount para population (train_set fit ! nat b)
                   (nat ((P - 1) div deviceCount + 1))],
               trace := trace fit @ scoring_events b deviceCount para population ((P - 1) div deviceCount + 1)\<rparr>,
               fitness')"
    "length fitness' = length fitness"
    "\<forall>i. 0 \<le> i \<and> i < P \<longrightarrow> fitness_of P fitness' i =
          fitness_components K para
            (chunk_row K deviceCount para population (train_set fit ! nat b)
               (Suc (nat (i div deviceCount))) ! nat (i mod deviceCount))
            (i mod deviceCount)"
    "\<forall>j. 3 * P \<le> int j \<longrightarrow> fitness' ! j = fitness ! j"
    unfolding P_def[symmetric] by blast
  moreover have "compute K deviceCount g para population fitness fit =
      compute_scoring K deviceCount para population ((P - 1) div deviceCount + 1) b (fit, fitness)"
    using assms(3,4,7) by (simp add: compute_def Let_def sm sd[unfolded P_def] P_def)
  ultimately show ?thesis unfolding ce by simp
qed

section \<open>Fitness components written by a scoring generation\<close>

text \<open>
  C1. In a scoring generation \<open>g > 0\<close> (at least one device, a non-empty population, the
  chosen batch holding a Dataset per device, \<open>find_force\<close> keeping the number of Datasets,
  the population and fitness arrays large enough, the index arithmetic within the range
  of \<^verbatim>\<open>int\<close>) \<open>compute\<close> returns, and for the
  individual of index \<open>i = deviceCount * n + m\<close>, scored in chunk \<open>n\<close> on device \<open>m\<close>, the
  fitness array holds at \<open>i\<close>, \<open>i + population_size\<close> and \<open>i + 2 * population_size\<close>
  the products of \<open>lambda_e\<close>, \<open>lambda_f\<close>, \<open>lambda_v\<close> with the energy, force and
  virial RMSE (weighted; the energy one with the shift) of the Dataset of device \<open>m\<close> for
  batch \<open>g mod num_batches\<close>, as \<open>find_force\<close> left it for chunk \<open>n\<close>. The array keeps its
  length, these \<open>3 * population_size\<close> entries are all that is written, and no other
  value is produced.
\<close>

theorem compute_writes_three_components:
  assumes "0 < g" "0 < deviceCount" "0 < population_size para" "0 \<le> number_of_variables para"
    and "0 < num_batches fit" "num_batches fit \<le> int (length (train_set fit))"
    and "deviceCount \<le> int (length (train_set fit ! nat (g mod num_batches fit)))"
    and "\<forall>p ps dss c k. length (find_force K p ps dss c k) = length dss"
    and "population_size para * number_of_variables para \<le> int (length population)"
    and "3 * population_size para \<le> int (length fitness)"
    and "population_size para * number_of_variables para < 2 ^ 31"
    and "3 * population_size para < 2 ^ 31"
  shows "\<exists>fit' fitness'.
       compute K deviceCount g para population fitness fit = Some (fit', fitness')
     \<and> length fitness' = length fitness
     \<and> (\<forall>n m. 0 \<le> n \<and> 0 \<le> m \<and> m < deviceCount \<and> deviceCount * n + m < population_size para \<longrightarrow>
          (let i = deviceCount * n + m;
               ds = chunk_row K deviceCount para population
                      (train_set fit ! nat (g mod num_batches fit)) (Suc (nat n)) ! nat m
           in fitness' ! nat (i + 0 * population_size para)
                = lambda_e para * fst (get_rmse_energy K ds True True m)
            \<and> fitness' ! nat (i + 1 * population_size para)
                = lambda_f para * get_rmse_force K para ds True m
            \<and> fitness' ! nat (i + 2 * population_size para)
                = lambda_v para * get_rmse_virial K ds True m))
     \<and> (\<forall>j. 3 * population_size para \<le> int j \<longrightarrow> fitness' ! j = fitness ! j)"
proof -
  from compute_scoring_generation[OF assms(1-10)]
  obtain fit' fitness' where
      run: "compute K deviceCount g para population fitness fit = Some (fit', fitness')"
    and ll: "length fitness' = length fitness"
    and fi: "\<And>i. 0 \<le> i \<Longrightarrow> i < population_size para \<Longrightarrow>
          fitness_of (population_size para) fitness' i =
          fitness_components K para
            (chunk_row K deviceCount para population (train_set fit ! nat (g mod num_batches fit))
               (Suc (nat (i div deviceCount))) ! nat (i mod deviceCount))
            (i mod deviceCount)"
    and fk: "\<forall>j. 3 * population_size para \<le> int j \<longrightarrow> fitness' ! j = fitness ! j"
    by blast
  have "fitness' ! nat (deviceCount * n + m + 0 * population_size para)
            = lambda_e para * fst (get_rmse_energy K
                (chunk_row K deviceCount para population
                   (train_set fit ! nat (g mod num_batches fit)) (Suc (nat n)) ! nat m) True True m)
      \<and> fitness' ! nat (deviceCount * n + m + 1 * population_size para)
            = lambda_f para * get_rmse_force K para
                (chunk_row K deviceCount para population
                   (train_set fit ! nat (g mod num_batches fit)) (Suc (nat n)) ! nat m) True m
      \<and> fitness' ! nat (deviceCount * n + m + 2 * population_size para)
            = lambda_v para * get_rmse_virial K
                (chunk_row K deviceCount para population
                   (train_set fit ! nat (g mod num_batches fit)) (Suc (nat n)) ! nat m) True m"
    if h: "0 \<le> n \<and> 0 \<le> m \<and> m < deviceCount \<and> deviceCount * n + m < population_size para" for n m
  proof -
    have i0: "0 \<le> deviceCount * n + m" using h assms(2) by simp
    have dm: "(deviceCount * n + m) div deviceCount = n" "(deviceCount * n + m) mod deviceCount = m"
      using div_mod_chunk[OF assms(2), of n "deviceCount * n + m"] h by simp_all
    from fi[OF i0] h show ?thesis
      unfolding dm by (simp add: fitness_of_def fitness_components_def)
  qed
  then show ?thesis using run ll fk by (simp add: Let_def)
qed

theorem compute_writes_three_components_witness:
  "\<exists>fit' fitness'.
     compute ex_K 2 1 ex_para [1, 2, 3] [9, 9, 9, 9, 9, 9, 9, 9, 9] ex_fit = Some (fit', fitness')
     \<and> fitness' ! 2 = 1 \<and> fitness' ! 5 = 0 \<and> fitness' ! 8 = 0"
proof -
  have h: "(0::int) < 1" "(0::int) < 2" "0 < population_size ex_para" "0 \<le> number_of_variables ex_para"
    "0 < num_batches ex_fit" "num_batches ex_fit \<le> int (length (train_set ex_fit))"
    "2 \<le> int (length (train_set ex_fit ! nat (1 mod num_batches ex_fit)))"
    "\<forall>p ps dss c k. length (find_force ex_K p ps dss c k) = length dss"
    "population_size ex_para * number_of_variables ex_para \<le> int (length [1, 2, 3 :: real])"
    "3 * population_size ex_para \<le> int (length [9, 9, 9, 9, 9, 9, 9, 9, 9 :: real])"
    "population_size ex_para * number_of_variables ex_para < 2 ^ 31"
    "3 * population_size ex_para < 2 ^ 31"
    by (simp_all add: ex_para_def ex_fit_def ex_K_def)
  from compute_writes_three_components[OF h]
  obtain fit' fitness' where
      run: "compute ex_K 2 1 ex_para [1, 2, 3] [9, 9, 9, 9, 9, 9, 9, 9, 9] ex_fit = Some (fit', fitness')"
    and w: "\<forall>n m. 0 \<le> n \<and> 0 \<le> m \<and> m < 2 \<and> 2 * n + m < population_size ex_para \<longrightarrow>
          (let i = 2 * n + m;
               ds = chunk_row ex_K 2 ex_para [1, 2, 3]
                      (train_set ex_fit ! nat (1 mod num_batches ex_fit)) (Suc (nat n)) ! nat m
           in fitness' ! nat (i + 0 * population_size ex_para)
                = lambda_e ex_para * fst (get_rmse_energy ex_K ds True True m)
            \<and> fitness' ! nat (i + 1 * population_size ex_para)
                = lambda_f ex_para * get_rmse_force ex_K ex_para ds True m
            \<and> fitness' ! nat (i + 2 * population_size ex_para)
                = lambda_v ex_para * get_rmse_virial ex_K ds True m)"
    by blast
  have "fitness' ! 2 = 1 \<and> fitness' ! 5 = 0 \<and> fitness' ! 8 = 0"
    using w[rule_format, of 1 0]
    by (simp add: ex_defs RMSE_def Let_def numeral_2_eq_2 eval_nat_numeral)
  with run show ?thesis by blast
qed

section \<open>Dispatch of the population\<close>



section \<open>Batch rotation\<close>

text \<open>
  C4. In a scoring generation \<open>g > 0\<close> (with \<open>g + num_batches\<close> still an \<^verbatim>\<open>int\<close>),
  \<open>compute\<close> works on the batch \<open>g mod num_batches\<close> and
  on nothing else that depends on \<open>g\<close>: it is a function of its arguments, and the call at
  generation \<open>g + num_batches\<close> is the call at generation \<open>g\<close>. The batch index repeats with
  period \<open>num_batches\<close>, and over any \<open>num_batches\<close> consecutive generations from \<open>g\<close> on
  the batch indices are pairwise different and are exactly \<open>0, \<dots>, num_batches - 1\<close>: every
  batch is visited once per period.
\<close>

theorem batch_rotation_periodic:
  assumes "0 < g" "0 < num_batches fit" "deviceCount \<noteq> 0"
    and "g + num_batches fit < 2 ^ 31"
  shows "compute K deviceCount g para population fitness fit =
           compute_scoring K deviceCount para population
             ((population_size para - 1) sdiv deviceCount + 1) (g mod num_batches fit) (fit, fitness)
       \<and> 0 \<le> g mod num_batches fit \<and> g mod num_batches fit < num_batches fit
       \<and> (g + num_batches fit) smod num_batches fit = g smod num_batches fit
       \<and> compute K deviceCount (g + num_batches fit) para population fitness fit =
           compute K deviceCount g para population fitness fit
       \<and> distinct (map (\<lambda>k. (g + k) smod num_batches fit) [0..num_batches fit - 1])
       \<and> set (map (\<lambda>k. (g + k) smod num_batches fit) [0..num_batches fit - 1]) = {0..num_batches fit - 1}"
proof -
  have m: "(g + k) smod num_batches fit = (g + k) mod num_batches fit" if "0 \<le> k" for k
    using assms that by (intro smod_nonneg) simp_all
  have m0: "g smod num_batches fit = g mod num_batches fit" using m[of 0] by simp
  have m1: "(g + num_batches fit) smod num_batches fit = g mod num_batches fit"
    using m[of "num_batches fit"] assms by simp
  have e: "map (\<lambda>k. (g + k) smod num_batches fit) [0..num_batches fit - 1]
         = map (\<lambda>k. (g + k) mod num_batches fit) [0..num_batches fit - 1]"
    using m by simp
  show ?thesis
    unfolding e using assms rotation_window[OF assms(2), of g]
    by (simp add: compute_def Let_def m0 m1)
qed

theorem batch_rotation_periodic_witness:
  "compute ex_K 2 5 ex_para [1, 2, 3] [0, 0, 0, 0, 0, 0, 0, 0, 0] ex_fit =
   compute ex_K 2 3 ex_para [1, 2, 3] [0, 0, 0, 0, 0, 0, 0, 0, 0] ex_fit"
proof -
  have "(0::int) < 3" "0 < num_batches ex_fit" "(2::int) \<noteq> 0" "3 + num_batches ex_fit < 2 ^ 31"
    by (simp_all add: ex_fit_def)
  from batch_rotation_periodic[OF this, of ex_K ex_para "[1, 2, 3]" "[0, 0, 0, 0, 0, 0, 0, 0, 0]"]
  show ?thesis by (simp add: ex_fit_def)
qed

section \<open>Warm-up\<close>

text \<open>
  C5. At generation 0 (with at least one training batch, and \<^verbatim>\<open>train_set\<close> holding
  \<^verbatim>\<open>num_batches\<close> rows) \<open>compute\<close> returns, and the fitness array it returns is the array
  it was given: nothing is written. Every call of \<open>find_force\<close> it makes passes the vector
  of \<^verbatim>\<open>number_of_variables\<close> ones with \<^verbatim>\<open>calculate_q_scaler\<close> set: for each batch in turn,
  that batch on all devices and then the test set on one device. Each training batch
  ends as \<open>find_force\<close> left it, and the test set has been evaluated once per batch.
\<close>

theorem warmup_leaves_fitness:
  assumes "0 \<le> number_of_variables para" "deviceCount \<noteq> 0"
    and "0 < num_batches fit" "num_batches fit \<le> int (length (train_set fit))"
  shows "\<exists>fit'. compute K deviceCount 0 para population fitness fit = Some (fit', fitness)
     \<and> trace fit' = trace fit @
          warmup_events (replicate (nat (number_of_variables para)) 1) deviceCount (num_batches fit)
     \<and> (\<forall>n. 0 \<le> n \<and> n < num_batches fit \<longrightarrow>
           train_set fit' ! nat n =
             find_force K para (replicate (nat (number_of_variables para)) 1)
               (train_set fit ! nat n) True deviceCount)
     \<and> test_set fit' =
          ((\<lambda>ts. find_force K para (replicate (nat (number_of_variables para)) 1) ts True 1)
             ^^ nat (num_batches fit)) (test_set fit)"
proof -
  define dummy where "dummy = replicate (nat (number_of_variables para)) (1::real)"
  define body where "body = (\<lambda>n (fit::Fitness). do {
             row \<leftarrow> rd (train_set fit) n;
             let fit = fit\<lparr>train_set := (train_set fit)[nat n := find_force K para dummy row True deviceCount],
                          trace := trace fit @ [Find_force (Train n) dummy True deviceCount]\<rparr>;
             Some (fit\<lparr>test_set := find_force K para dummy (test_set fit) True 1,
                       trace := trace fit @ [Find_force Test dummy True 1]\<rparr>)
           })"
  let ?I = "\<lambda>j (f::Fitness). trace f = trace fit @ warmup_events dummy deviceCount j
      \<and> length (train_set f) = length (train_set fit)
      \<and> (\<forall>n. 0 \<le> n \<and> n < j \<longrightarrow>
            train_set f ! nat n = find_force K para dummy (train_set fit ! nat n) True deviceCount)
      \<and> (\<forall>n. j \<le> n \<longrightarrow> train_set f ! nat n = train_set fit ! nat n)
      \<and> test_set f = ((\<lambda>ts. find_force K para dummy ts True 1) ^^ nat j) (test_set fit)"
  have "\<exists>t. for_loop 0 (num_batches fit) body fit = Some t \<and> ?I (max 0 (num_batches fit)) t"
  proof (rule for_loop_inv[where I = ?I])
    show "?I 0 fit" by (auto simp: warmup_events_def)
  next
    fix j and t :: Fitness
    assume j: "0 \<le> j" "j < num_batches fit" and I: "?I j t"
    have up: "[0..j] = [0..j - 1] @ [j]" using j by (simp add: upto_rec2)
    have r: "rd (train_set t) j = Some (train_set fit ! nat j)"
      using j I assms(4) by (simp add: rd_def)
    have nj: "nat (j + 1) = Suc (nat j)" using j by simp
    let ?t' = "t\<lparr>train_set := (train_set t)[nat j := find_force K para dummy (train_set fit ! nat j) True deviceCount],
                test_set := find_force K para dummy (test_set t) True 1,
                trace := trace t @ [Find_force (Train j) dummy True deviceCount, Find_force Test dummy True 1]\<rparr>"
    have b: "body j t = Some ?t'" by (simp add: body_def r Let_def)
    have "?I (j + 1) ?t'"
    proof (intro conjI allI impI)
      show "trace ?t' = trace fit @ warmup_events dummy deviceCount (j + 1)"
        using I by (simp add: warmup_events_def up)
      show "length (train_set ?t') = length (train_set fit)" using I by simp
      show "test_set ?t' = ((\<lambda>ts. find_force K para dummy ts True 1) ^^ nat (j + 1)) (test_set fit)"
        using I by (simp add: nj)
    next
      fix n assume n: "0 \<le> n \<and> n < j + 1"
      show "train_set ?t' ! nat n = find_force K para dummy (train_set fit ! nat n) True deviceCount"
      proof (cases "n = j")
        case True
        then show ?thesis using j I assms(4) by simp
      next
        case False
        then have "nat n \<noteq> nat j" "n < j" using n j by auto
        then show ?thesis using I n by simp
      qed
    next
      fix n assume n: "j + 1 \<le> n"
      then have "nat n \<noteq> nat j" "j \<le> n" using j by auto
      then show "train_set ?t' ! nat n = train_set fit ! nat n" using I by simp
    qed
    then show "\<exists>t'. body j t = Some t' \<and> ?I (j + 1) t'" using b by blast
  qed
  then obtain t where t: "for_loop 0 (num_batches fit) body fit = Some t"
    and It: "?I (num_batches fit) t" using assms(3) by (auto simp: max_def)
  have "compute K deviceCount 0 para population fitness fit = Some (t, fitness)"
    using assms(1,2) t by (simp add: compute_def compute_warmup_def Let_def body_def dummy_def)
  then show ?thesis using It unfolding dummy_def by blast
qed

theorem warmup_leaves_fitness_witness:
  "\<exists>fit'. compute ex_K 2 0 ex_para [1, 2, 3] [7, 8, 9] ex_fit = Some (fit', [7, 8, 9])
     \<and> trace fit' = [Find_force (Train 0) [1] True 2, Find_force Test [1] True 1,
                       Find_force (Train 1) [1] True 2, Find_force Test [1] True 1]"
proof -
  have "0 \<le> number_of_variables ex_para" "(2::int) \<noteq> 0" "0 < num_batches ex_fit"
    "num_batches ex_fit \<le> int (length (train_set ex_fit))"
    by (simp_all add: ex_para_def ex_fit_def)
  from warmup_leaves_fitness[OF this, of ex_K "[1, 2, 3]" "[7, 8, 9]"]
  obtain fit' where c: "compute ex_K 2 0 ex_para [1, 2, 3] [7, 8, 9] ex_fit = Some (fit', [7, 8, 9])"
    and t: "trace fit' = trace ex_fit @
      warmup_events (replicate (nat (number_of_variables ex_para)) 1) 2 (num_batches ex_fit)"
    by blast
  have "trace fit' = [Find_force (Train 0) [1] True 2, Find_force Test [1] True 1,
                      Find_force (Train 1) [1] True 2, Find_force Test [1] True 1]"
    unfolding t by (simp add: ex_para_def ex_fit_def warmup_events_def upto_rec1)
  with c show ?thesis by blast
qed

section \<open>The checkpoint\<close>

lemma dump_train_set_trace:
  assumes "dump_train_set K para elite s = Some t"
  shows "trace (fst t) = trace (fst s) @ train_dump_events elite (num_batches (fst s))
       \<and> fid_loss_out (fst t) = fid_loss_out (fst s) \<and> num_batches (fst t) = num_batches (fst s)"
proof -
  let ?I = "\<lambda>j (u :: Fitness \<times> pair_line list \<times> force_line list \<times> pair_line list).
      trace (fst u) = trace (fst s) @ train_dump_events elite j
      \<and> fid_loss_out (fst u) = fid_loss_out (fst s) \<and> num_batches (fst u) = num_batches (fst s)"
  have "?I (max 0 (num_batches (fst s))) t"
  proof (rule for_loop_partial[where I = ?I, OF assms[unfolded dump_train_set_def]])
    show "?I 0 s" by (simp add: train_dump_events_def)
  next
    fix j u u'
    assume j: "0 \<le> j" "j < num_batches (fst s)" and I: "?I j u"
      and step: "(case u of (fit, fid_energy, fid_force, fid_virial) \<Rightarrow> do {
          row \<leftarrow> rd (train_set fit) j;
          let fit = fit\<lparr>train_set := (train_set fit)[nat j := find_force K para elite row False 1],
                       trace := trace fit @ [Find_force (Train j) elite False 1]\<rparr>;
          row0 \<leftarrow> rd (train_set fit) 0;
          dataset \<leftarrow> rd row0 j;
          (fid_energy, fid_force, fid_virial, dataset) \<leftarrow>
             update_energy_force_virial fid_energy fid_force fid_virial dataset;
          Some (fit\<lparr>train_set := (train_set fit)[0 := row0[nat j := dataset]],
                    trace := trace fit @ [Dump_train 0 j]\<rparr>,
                fid_energy, fid_force, fid_virial)
        }) = Some u'"
    have up: "[0..j + 1 - 1] = [0..j - 1] @ [j]" using j by (simp add: upto_rec2)
    show "?I (j + 1) u'"
      using I step unfolding train_dump_events_def up
      by (auto simp: Let_def bind_eq_Some_conv split: prod.splits)
  qed
  then show ?thesis
    by (cases "0 \<le> num_batches (fst s)") (simp_all add: max_def train_dump_events_def)
qed

lemma checkpoint_elite:
  assumes "checkpoint K para g lt l1 l2 elite fit files = Some (elite', fit', files')"
  shows "\<exists>row d0.
      rd (train_set fit) (g smod num_batches fit) = Some row
    \<and> rd (find_force K para elite row False 1) 0 = Some d0
    \<and> 0 \<le> number_of_variables_ann para - 1
    \<and> number_of_variables_ann para - 1 < int (length elite)
    \<and> elite' = elite[nat (number_of_variables_ann para - 1) :=
          elite ! nat (number_of_variables_ann para - 1) + snd (get_rmse_energy K d0 False True 0)]"
  using assms unfolding checkpoint_def
  by (auto simp: Let_def case_prod_beta bind_eq_Some_conv rd_update_same rd_Some_iff wr_Some_iff
      split: if_splits)

lemma checkpoint_trace:
  assumes "checkpoint K para g lt l1 l2 elite fit files = Some (elite', fit', files')"
  shows "trace fit' = trace fit @ [Find_force (Train (g smod num_batches fit)) elite False 1,
                                   Find_force Test elite' False 1, Dump_test]
                      @ (if 0 = (g + 1) smod 1000 then train_dump_events elite' (num_batches fit) else [])
       \<and> length (fid_loss_out fit') = length (fid_loss_out fit) + 1"
  using assms unfolding checkpoint_def
  using assms unfolding checkpoint_def
  by (auto simp: Let_def case_prod_beta bind_eq_Some_conv split: if_splits dest!: dump_train_set_trace)

lemma train_dump_events_set:
  "e \<in> set (train_dump_events elite nb) \<longleftrightarrow>
     (\<exists>b. 0 \<le> b \<and> b < nb \<and> (e = Find_force (Train b) elite False 1 \<or> e = Dump_train 0 b))"
  by (auto simp: train_dump_events_def)

section \<open>Checkpoint cadence\<close>

text \<open>
  C6. For a generation \<open>g \<ge> 0\<close> (with \<open>g + 1\<close> still an \<^verbatim>\<open>int\<close>) at which \<open>report_error\<close>
  returns and at least one training batch: the call adds events to
  the trace, and a line to \<^verbatim>\<open>loss.out\<close>, exactly when \<open>(g + 1) mod 100 = 0\<close>, that is at
  \<open>g = 99, 199, \<dots>\<close>; otherwise it changes nothing at all. A Dataset of the training set
  is dumped exactly when \<open>(g + 1) mod 1000 = 0\<close>, that is at \<open>g = 999, 1999, \<dots>\<close>, and then
  the events after the three of the checkpoint proper are those of the training-set loop.
\<close>

theorem checkpoint_cadence:
  assumes "0 \<le> g" "0 < num_batches fit"
    and "report_error K para g lt l1 l2 elite fit files = Some (elite', fit', files')"
    and "g + 1 < 2 ^ 31"
  shows "(drop (length (trace fit)) (trace fit') \<noteq> [] \<longleftrightarrow> (g + 1) mod 100 = 0)
       \<and> (length (fid_loss_out fit') = length (fid_loss_out fit) + 1 \<longleftrightarrow> (g + 1) mod 100 = 0)
       \<and> ((g + 1) mod 100 \<noteq> 0 \<longrightarrow> elite' = elite \<and> fit' = fit \<and> files' = files)
       \<and> ((\<exists>b. Dump_train 0 b \<in> set (drop (length (trace fit)) (trace fit'))) \<longleftrightarrow> (g + 1) mod 1000 = 0)
       \<and> ((g + 1) mod 1000 = 0 \<longrightarrow>
            drop (length (trace fit) + 3) (trace fit') = train_dump_events elite' (num_batches fit))
       \<and> ((g + 1) mod 100 = 0 \<longleftrightarrow> (\<exists>k\<ge>1. g = 100 * k - 1))
       \<and> ((g + 1) mod 1000 = 0 \<longleftrightarrow> (\<exists>k\<ge>1. g = 1000 * k - 1))"
proof -
  have a100: "(g + 1) mod 100 = 0 \<longleftrightarrow> (\<exists>k\<ge>1. g = 100 * k - 1)"
  proof
    assume "(g + 1) mod 100 = 0"
    then obtain k where k: "g + 1 = 100 * k" by (auto simp: mod_eq_0_iff_dvd)
    then have "1 \<le> k" "g = 100 * k - 1" using assms(1) by auto
    then show "\<exists>k\<ge>1. g = 100 * k - 1" by blast
  qed auto
  have a1000: "(g + 1) mod 1000 = 0 \<longleftrightarrow> (\<exists>k\<ge>1. g = 1000 * k - 1)"
  proof
    assume "(g + 1) mod 1000 = 0"
    then obtain k where k: "g + 1 = 1000 * k" by (auto simp: mod_eq_0_iff_dvd)
    then have "1 \<le> k" "g = 1000 * k - 1" using assms(1) by auto
    then show "\<exists>k\<ge>1. g = 1000 * k - 1" by blast
  qed auto
  have s100: "(0 = (g + 1) smod 100) = ((g + 1) mod 100 = 0)"
    using assms(1) by (intro smod_zero_iff) simp_all
  have s1000: "(0 = (g + 1) smod 1000) = ((g + 1) mod 1000 = 0)"
    using assms(1) by (intro smod_zero_iff) simp_all
  have "(100::int) dvd 1000" by simp
  then have imp: "(g + 1) mod 1000 = 0 \<Longrightarrow> (g + 1) mod 100 = 0"
    unfolding mod_eq_0_iff_dvd by (rule dvd_trans)
  show ?thesis
  proof (cases "(g + 1) mod 100 = 0")
    case False
    then have same: "elite' = elite \<and> fit' = fit \<and> files' = files"
      using assms(3) by (simp add: report_error_def s100)
    have n1000: "(g + 1) mod 1000 \<noteq> 0" using False imp by auto
    have c1: "drop (length (trace fit)) (trace fit') \<noteq> [] \<longleftrightarrow> (g + 1) mod 100 = 0"
      using same False by simp
    have c2: "length (fid_loss_out fit') = length (fid_loss_out fit) + 1 \<longleftrightarrow> (g + 1) mod 100 = 0"
      using same False by simp
    have c3: "(g + 1) mod 100 \<noteq> 0 \<longrightarrow> elite' = elite \<and> fit' = fit \<and> files' = files"
      using same by simp
    have c4: "(\<exists>b. Dump_train 0 b \<in> set (drop (length (trace fit)) (trace fit'))) \<longleftrightarrow> (g + 1) mod 1000 = 0"
      using same n1000 by simp
    have c5: "(g + 1) mod 1000 = 0 \<longrightarrow>
            drop (length (trace fit) + 3) (trace fit') = train_dump_events elite' (num_batches fit)"
      using n1000 by simp
    show ?thesis by (intro conjI; fact)
  next
    case True
    then have c: "checkpoint K para g lt l1 l2 elite fit files = Some (elite', fit', files')"
      using assms(3) by (simp add: report_error_def s100)
    note t = checkpoint_trace[OF c, unfolded s1000]
    have nb: "\<exists>b. 0 \<le> b \<and> b < num_batches fit" using assms(2) by (intro exI[of _ 0]) simp
    have d: "drop (length (trace fit)) (trace fit') =
        [Find_force (Train (g smod num_batches fit)) elite False 1, Find_force Test elite' False 1, Dump_test]
        @ (if (g + 1) mod 1000 = 0 then train_dump_events elite' (num_batches fit) else [])"
      using t by simp
    have d3: "drop (length (trace fit) + 3) (trace fit') =
        (if (g + 1) mod 1000 = 0 then train_dump_events elite' (num_batches fit) else [])"
      using t by simp
    have c1: "drop (length (trace fit)) (trace fit') \<noteq> [] \<longleftrightarrow> (g + 1) mod 100 = 0"
      unfolding d using True by simp
    have c2: "length (fid_loss_out fit') = length (fid_loss_out fit) + 1 \<longleftrightarrow> (g + 1) mod 100 = 0"
      using t True by simp
    have c3: "(g + 1) mod 100 \<noteq> 0 \<longrightarrow> elite' = elite \<and> fit' = fit \<and> files' = files"
      using True by simp
    have c4: "(\<exists>b. Dump_train 0 b \<in> set (drop (length (trace fit)) (trace fit'))) \<longleftrightarrow> (g + 1) mod 1000 = 0"
      unfolding d using nb by (auto simp: train_dump_events_set)
    have c5: "(g + 1) mod 1000 = 0 \<longrightarrow>
            drop (length (trace fit) + 3) (trace fit') = train_dump_events elite' (num_batches fit)"
      unfolding d3 by simp
    show ?thesis by (intro conjI; fact)
  qed
qed

theorem checkpoint_cadence_witness:
  "\<exists>elite' fit' files'.
     report_error ex_K ex_para 999 0 0 0 [5] ex_fit ex_files = Some (elite', fit', files')
     \<and> drop 3 (trace fit') = train_dump_events elite' 2"
proof -
  obtain elite' fit' files'
    where r: "report_error ex_K ex_para 999 0 0 0 [5] ex_fit ex_files = Some (elite', fit', files')"
    by (simp add: ex_defs run_defs)
  have h: "(0::int) \<le> 999" "0 < num_batches ex_fit" by (simp_all add: ex_fit_def)
  have h': "(999::int) + 1 < 2 ^ 31" by simp
  from checkpoint_cadence[OF h r h'] have "drop 3 (trace fit') = train_dump_events elite' 2"
    by (simp add: ex_fit_def)
  with r show ?thesis by blast
qed

section \<open>The update of the elite at a checkpoint\<close>

text \<open>
  Line 184. At a checkpoint (\<open>(g + 1) mod 100 = 0\<close>, \<open>g + 1\<close> still an \<^verbatim>\<open>int\<close>) that returns,
  the elite has been evaluated on device 0 against batch \<open>g mod num_batches\<close>, and the
  value that \<open>get_rmse_energy\<close> (unweighted, shift requested) leaves in
  \<^verbatim>\<open>energy_shift_per_structure\<close> for that Dataset has been added to the entry of index
  \<^verbatim>\<open>number_of_variables_ann - 1\<close> of the elite. The vector keeps its length and every other
  entry. With which sign \<open>get_rmse_energy\<close> forms that value from the predicted and the
  reference energies is decided in \<^verbatim>\<open>dataset.cu\<close>, not here.
\<close>

lemma elite_update_adds_shift:
  assumes "0 \<le> g" "(g + 1) mod 100 = 0"
    and "report_error K para g lt l1 l2 elite fit files = Some (elite', fit', files')"
    and "g + 1 < 2 ^ 31"
  shows "\<exists>row d0.
      rd (train_set fit) (g smod num_batches fit) = Some row
    \<and> rd (find_force K para elite row False 1) 0 = Some d0
    \<and> 0 \<le> number_of_variables_ann para - 1
    \<and> number_of_variables_ann para - 1 < int (length elite)
    \<and> elite' ! nat (number_of_variables_ann para - 1) =
        elite ! nat (number_of_variables_ann para - 1) + snd (get_rmse_energy K d0 False True 0)
    \<and> length elite' = length elite
    \<and> (\<forall>i. i \<noteq> nat (number_of_variables_ann para - 1) \<longrightarrow> elite' ! i = elite ! i)"
proof -
  have "(0 = (g + 1) smod 100) = ((g + 1) mod 100 = 0)"
    using assms(1) by (intro smod_zero_iff) simp_all
  then have c: "checkpoint K para g lt l1 l2 elite fit files = Some (elite', fit', files')"
    using assms(2,3) by (simp add: report_error_def)
  from checkpoint_elite[OF c] obtain row d0 where
      r: "rd (train_set fit) (g smod num_batches fit) = Some row"
        "rd (find_force K para elite row False 1) 0 = Some d0"
    and b: "0 \<le> number_of_variables_ann para - 1"
        "number_of_variables_ann para - 1 < int (length elite)"
    and e: "elite' = elite[nat (number_of_variables_ann para - 1) :=
          elite ! nat (number_of_variables_ann para - 1) + snd (get_rmse_energy K d0 False True 0)]"
    by blast
  have "elite' ! nat (number_of_variables_ann para - 1) =
        elite ! nat (number_of_variables_ann para - 1) + snd (get_rmse_energy K d0 False True 0)"
    unfolding e using b by simp
  moreover have "length elite' = length elite" unfolding e by simp
  moreover have "\<forall>i. i \<noteq> nat (number_of_variables_ann para - 1) \<longrightarrow> elite' ! i = elite ! i"
    unfolding e by simp
  ultimately show ?thesis using r b by blast
qed

section \<open>The training-set dump\<close>

text \<open>
  C8, at two batches on two devices. At generation 999 the loop evaluates batch 0 and
  batch 1 on their device-0 Datasets, but what it dumps is \<^verbatim>\<open>train_set[0][0]\<close> and then
  \<^verbatim>\<open>train_set[0][1]\<close>: batch 0 on device 0 and batch 0 on device 1. The energy file holds
  the structure of batch 0 (reference energy 10) twice and the structure of batch 1
  (reference energy 20) not at all. With a single device the second dump indexes
  \<^verbatim>\<open>train_set[0]\<close> out of range.
\<close>

theorem train_dump_indices_swapped:
  "map_option (drop 3 \<circ> trace \<circ> fst \<circ> snd)
     (report_error ex_K ex_para 999 0 0 0 [5] ex_fit ex_files)
   = Some [Find_force (Train 0) [6] False 1, Dump_train 0 0,
           Find_force (Train 1) [6] False 1, Dump_train 0 1]
   \<and> map_option (energy_train_out \<circ> snd \<circ> snd)
       (report_error ex_K ex_para 999 0 0 0 [5] ex_fit ex_files)
     = Some [(11, 10), (11, 10)]
   \<and> report_error ex_K ex_para 999 0 0 0 [5]
        (ex_fit\<lparr>train_set := [[ex_dataset 11 10], [ex_dataset 21 20]]\<rparr>) ex_files = None"
  by (simp add: ex_defs run_defs)

section \<open>Prediction dump lines\<close>

lemma sum_loop:
  fixes data :: "real list"
  assumes "0 \<le> off" "off + na \<le> int (length data)"
  shows "for_loop 0 na (\<lambda>m data_nc. do { x \<leftarrow> rd data (off + m); Some (data_nc + x) }) a0
         = Some (a0 + (\<Sum>m<nat na. data ! (nat off + m)))"
proof -
  let ?body = "\<lambda>m data_nc. do { x \<leftarrow> rd data (off + m); Some (data_nc + x) }"
  let ?I = "\<lambda>j (a::real). a = a0 + (\<Sum>m<nat j. data ! (nat off + m))"
  have "\<exists>t. for_loop 0 na ?body a0 = Some t \<and> ?I (max 0 na) t"
  proof (rule for_loop_inv[where I = ?I])
    show "?I 0 a0" by simp
  next
    fix j and t :: real
    assume j: "0 \<le> j" "j < na" and I: "?I j t"
    have r: "rd data (off + j) = Some (data ! (nat off + nat j))"
      using j assms by (simp add: rd_def nat_add_distrib)
    have nj: "nat (j + 1) = Suc (nat j)" using j by simp
    show "\<exists>t'. ?body j t = Some t' \<and> ?I (j + 1) t'"
      using I by (simp add: r nj)
  qed
  then show ?thesis by (cases "0 \<le> na") (auto simp: max_def)
qed

text \<open>
  C10. For a Dataset of \<open>Nc\<close> structures whose tables are in range (each structure has at
  least one atom, and its atoms \<open>Na_sum_cpu[nc], \<dots>, Na_sum_cpu[nc] + Na_cpu[nc] - 1\<close> lie
  inside \<open>data\<close>), \<open>predict_energy_or_stress\<close> returns, and it appends to the file one line
  per structure, in the order of the structures: the sum of \<open>data\<close> over the atoms of the
  structure divided by \<open>Na_cpu[nc]\<close>, then \<open>ref[nc]\<close> as it is stored.
\<close>

theorem predict_energy_or_stress_lines:
  assumes "0 \<le> Nc dataset"
    and "Nc dataset \<le> int (length (Na_cpu dataset))"
    and "Nc dataset \<le> int (length (Na_sum_cpu dataset))"
    and "Nc dataset \<le> int (length ref)"
    and "\<forall>nc < nat (Nc dataset). 0 \<le> Na_sum_cpu dataset ! nc \<and> 0 < Na_cpu dataset ! nc
           \<and> Na_sum_cpu dataset ! nc + Na_cpu dataset ! nc \<le> int (length data)"
  shows "predict_energy_or_stress fid data ref dataset =
     Some (fid @ map (\<lambda>nc.
              ((\<Sum>m < nat (Na_cpu dataset ! nc). data ! (nat (Na_sum_cpu dataset ! nc) + m))
                 / real_of_int (Na_cpu dataset ! nc),
               ref ! nc))
            [0..<nat (Nc dataset)])"
proof -
  let ?line = "\<lambda>nc. ((\<Sum>m < nat (Na_cpu dataset ! nc). data ! (nat (Na_sum_cpu dataset ! nc) + m))
                 / real_of_int (Na_cpu dataset ! nc), ref ! nc)"
  let ?body = "\<lambda>nc fid. do {
          offset \<leftarrow> rd (Na_sum_cpu dataset) nc;
          na \<leftarrow> rd (Na_cpu dataset) nc;
          data_nc \<leftarrow> for_loop 0 na
            (\<lambda>m data_nc. do { x \<leftarrow> rd data (offset + m); Some (data_nc + x) }) 0;
          r \<leftarrow> rd ref nc;
          Some (fid @ [(data_nc / real_of_int na, r)])
        }"
  let ?I = "\<lambda>j (f::pair_line list). f = fid @ map ?line [0..<nat j]"
  have "\<exists>t. for_loop 0 (Nc dataset) ?body fid = Some t \<and> ?I (max 0 (Nc dataset)) t"
  proof (rule for_loop_inv[where I = ?I])
    show "?I 0 fid" by simp
  next
    fix j and t :: "pair_line list"
    assume j: "0 \<le> j" "j < Nc dataset" and I: "?I j t"
    have jn: "nat j < nat (Nc dataset)" using j by simp
    have r1: "rd (Na_sum_cpu dataset) j = Some (Na_sum_cpu dataset ! nat j)"
      and r2: "rd (Na_cpu dataset) j = Some (Na_cpu dataset ! nat j)"
      and r3: "rd ref j = Some (ref ! nat j)"
      using j assms(2-4) by (simp_all add: rd_def)
    have b: "0 \<le> Na_sum_cpu dataset ! nat j"
      "Na_sum_cpu dataset ! nat j + Na_cpu dataset ! nat j \<le> int (length data)"
      using assms(5) jn by simp_all
    have nj: "nat (j + 1) = Suc (nat j)" using j by simp
    show "\<exists>t'. ?body j t = Some t' \<and> ?I (j + 1) t'"
      using I by (simp add: r1 r2 r3 sum_loop[OF b] nj)
  qed
  then show ?thesis using assms(1) by (simp add: predict_energy_or_stress_def max_def)
qed

theorem predict_energy_or_stress_lines_witness:
  "predict_energy_or_stress [] [1, 2, 4, 8, 16] [7, 9]
     ((ex_dataset 0 0)\<lparr>Nc := 2, Na_cpu := [2, 3], Na_sum_cpu := [0, 2]\<rparr>)
   = Some [(3 / 2, 7), (28 / 3, 9)]"
proof -
  let ?d = "(ex_dataset 0 0)\<lparr>Nc := 2, Na_cpu := [2, 3], Na_sum_cpu := [0, 2]\<rparr>"
  have h: "0 \<le> Nc ?d" "Nc ?d \<le> int (length (Na_cpu ?d))" "Nc ?d \<le> int (length (Na_sum_cpu ?d))"
    "Nc ?d \<le> int (length [7, 9 :: real])"
    "\<forall>nc < nat (Nc ?d). 0 \<le> Na_sum_cpu ?d ! nc \<and> 0 < Na_cpu ?d ! nc
           \<and> Na_sum_cpu ?d ! nc + Na_cpu ?d ! nc \<le> int (length [1, 2, 4, 8, 16 :: real])"
    by (simp_all add: ex_dataset_def less_Suc_eq numeral_2_eq_2)
  from predict_energy_or_stress_lines[OF h, of "[]"]
  show ?thesis
    by (simp add: ex_dataset_def upt_rec lessThan_nat_numeral lessThan_Suc numeral_nat)
qed

section \<open>The zero-residual law\<close>

lemma sum_sq_nonneg: "0 \<le> sum_list (map2 (\<lambda>p r. (p - r)\<^sup>2) pred (ref :: real list))"
  by (rule sum_list_nonneg) auto

lemma sum_sq_zero_iff:
  "length pred = length ref \<Longrightarrow>
   sum_list (map2 (\<lambda>p r. (p - r)\<^sup>2) pred (ref :: real list)) = 0 \<longleftrightarrow> pred = ref"
proof (induction pred ref rule: list_induct2)
  case Nil
  then show ?case by simp
next
  case (Cons p ps r rs)
  have "0 \<le> (p - r)\<^sup>2" by simp
  then have "(p - r)\<^sup>2 + sum_list (map2 (\<lambda>p r. (p - r)\<^sup>2) ps rs) = 0
        \<longleftrightarrow> (p - r)\<^sup>2 = 0 \<and> sum_list (map2 (\<lambda>p r. (p - r)\<^sup>2) ps rs) = 0"
    using sum_sq_nonneg[of ps rs] by (intro add_nonneg_eq_0_iff)
  then show ?case using Cons.IH by simp
qed

lemma RMSE_nonneg: "0 \<le> RMSE pred ref"
  unfolding RMSE_def using sum_sq_nonneg[of pred ref] by simp

lemma RMSE_zero_iff:
  assumes "length pred = length ref" "ref \<noteq> []"
  shows "RMSE pred ref = 0 \<longleftrightarrow> pred = ref"
  unfolding RMSE_def using sum_sq_zero_iff[OF assms(1)] assms(2) by simp

text \<open>
  C9, as far as it holds (over the reals, for non-empty buffers of equal length).
  \<open>RMSE x x = 0\<close>; \<open>RMSE\<close> is never negative and is 0 exactly when prediction and reference
  are equal. A fitness component is the weight times what the error routine returns:
  when the routines return \<open>RMSE\<close>, a component with weight \<open>w > 0\<close> is non-negative and
  is 0 exactly when prediction and reference are equal, a component with weight 0 is 0
  whatever the buffers, and when all three predictions equal their references the three
  components are 0.
\<close>

theorem rmse_zero_law:
  "(x \<noteq> [] \<longrightarrow> RMSE x x = 0)
   \<and> 0 \<le> RMSE pred ref
   \<and> (length pred = length ref \<and> ref \<noteq> [] \<longrightarrow> (RMSE pred ref = 0 \<longleftrightarrow> pred = ref))
   \<and> (length pred = length ref \<and> ref \<noteq> [] \<and> 0 < w \<longrightarrow>
        0 \<le> w * RMSE pred ref \<and> (w * RMSE pred ref = 0 \<longleftrightarrow> pred = ref))
   \<and> (w = 0 \<longrightarrow> w * RMSE pred ref = 0)
   \<and> (fst (get_rmse_energy K ds True True m) = RMSE pe re
        \<and> get_rmse_force K para ds True m = RMSE pf rf
        \<and> get_rmse_virial K ds True m = RMSE pv rv \<longrightarrow>
        fitness_components K para ds m =
          (lambda_e para * RMSE pe re, lambda_f para * RMSE pf rf, lambda_v para * RMSE pv rv)
        \<and> (pe = re \<and> pf = rf \<and> pv = rv \<and> re \<noteq> [] \<and> rf \<noteq> [] \<and> rv \<noteq> [] \<longrightarrow>
             fitness_components K para ds m = (0, 0, 0)))"
proof -
  have z: "RMSE y y = 0" if "y \<noteq> []" for y using RMSE_zero_iff[of y y] that by simp
  have c1: "x \<noteq> [] \<longrightarrow> RMSE x x = 0" using z by simp
  have c2: "0 \<le> RMSE pred ref" by (rule RMSE_nonneg)
  have c3: "length pred = length ref \<and> ref \<noteq> [] \<longrightarrow> (RMSE pred ref = 0 \<longleftrightarrow> pred = ref)"
    using RMSE_zero_iff by blast
  have c4: "length pred = length ref \<and> ref \<noteq> [] \<and> 0 < w \<longrightarrow>
        0 \<le> w * RMSE pred ref \<and> (w * RMSE pred ref = 0 \<longleftrightarrow> pred = ref)"
    using RMSE_zero_iff[of pred ref] RMSE_nonneg[of pred ref] by auto
  have c5: "w = 0 \<longrightarrow> w * RMSE pred ref = 0" by simp
  have c6: "fst (get_rmse_energy K ds True True m) = RMSE pe re
        \<and> get_rmse_force K para ds True m = RMSE pf rf
        \<and> get_rmse_virial K ds True m = RMSE pv rv \<longrightarrow>
        fitness_components K para ds m =
          (lambda_e para * RMSE pe re, lambda_f para * RMSE pf rf, lambda_v para * RMSE pv rv)
        \<and> (pe = re \<and> pf = rf \<and> pv = rv \<and> re \<noteq> [] \<and> rf \<noteq> [] \<and> rv \<noteq> [] \<longrightarrow>
             fitness_components K para ds m = (0, 0, 0))"
    using z by (auto simp: fitness_components_def)
  show ?thesis by (intro conjI; fact)
qed

theorem rmse_zero_law_witness:
  "fitness_components ex_K ex_para (ex_dataset 20 20) 0 = (0, 0, 0)
   \<and> (RMSE [21] [20] = 0 \<longleftrightarrow> [21 :: real] = [20])"
proof -
  let ?d = "ex_dataset 20 20"
  have h: "fst (get_rmse_energy ex_K ?d True True 0) = RMSE (energy ?d) (energy_ref_cpu ?d)
        \<and> get_rmse_force ex_K ex_para ?d True 0 = RMSE (force ?d) (force_ref_cpu ?d)
        \<and> get_rmse_virial ex_K ?d True 0 = RMSE (virial ?d) (virial_ref_cpu ?d)"
    by (simp add: ex_K_def)
  have e: "energy ?d = energy_ref_cpu ?d \<and> force ?d = force_ref_cpu ?d \<and> virial ?d = virial_ref_cpu ?d
     \<and> energy_ref_cpu ?d \<noteq> [] \<and> force_ref_cpu ?d \<noteq> [] \<and> virial_ref_cpu ?d \<noteq> []"
    by (simp add: ex_dataset_def)
  have l: "length [21 :: real] = length [20 :: real] \<and> [20 :: real] \<noteq> []" by simp
  from rmse_zero_law[of "[1]" "[21]" "[20]" 1 ex_K ?d 0 "energy ?d" "energy_ref_cpu ?d" ex_para
      "force ?d" "force_ref_cpu ?d" "virial ?d" "virial_ref_cpu ?d"] h e l
  show ?thesis by blast
qed

text \<open>
  The claim as worded fails for a weight of 0: at generation 1 the energy components
  written for the three individuals are 0 although on both devices the predicted energy
  of the batch, 21, differs from its reference, 20.
\<close>

theorem fitness_zero_iff_equal_counterexample:
  "map_option snd
     (compute ex_K 2 1 (ex_para\<lparr>lambda_e := 0\<rparr>) [1, 2, 3] [9, 9, 9, 9, 9, 9, 9, 9, 9] ex_fit)
     = Some [0, 0, 0, 0, 0, 0, 0, 0, 0]
   \<and> energy (train_set ex_fit ! 1 ! 0) = [21] \<and> energy_ref_cpu (train_set ex_fit ! 1 ! 0) = [20]
   \<and> energy (train_set ex_fit ! 1 ! 1) = [21] \<and> energy_ref_cpu (train_set ex_fit ! 1 ! 1) = [20]"
  by (simp add: ex_defs compute_def compute_scoring_def score_chunk_def fitness_components_def
      ptr_add_def rd_def wr_def for_loop.simps Let_def RMSE_def
      smod_int_alt_def signed_divide_int_def)

end
